theory Spec2Isabelle
  imports
    Main
    "HOL-Library.Multiset"
    "HOL-Library.Sublist"
    "HOL-Library.Product_Lexorder"
begin

section \<open>JavaScript strings\<close>

text \<open>
  A string is a \<^typ>\<open>string\<close>, one \<^typ>\<open>char\<close> per code unit. The model covers ASCII text:
  \<open>toLowerCase\<close> maps \<open>A\<close>..\<open>Z\<close> to \<open>a\<close>..\<open>z\<close> and leaves every other character alone,
  and the white space of \<open>\s\<close> and \<open>trim\<close> is tab, line feed, vertical tab, form feed,
  carriage return and space.
\<close>

definition upper_letters :: string where
  "upper_letters = ''ABCDEFGHIJKLMNOPQRSTUVWXYZ''"

definition lower_letters :: string where
  "lower_letters = ''abcdefghijklmnopqrstuvwxyz''"

definition toLowerChar :: "char \<Rightarrow> char" where
  "toLowerChar c = (case map_of (zip upper_letters lower_letters) c of Some d \<Rightarrow> d | None \<Rightarrow> c)"

definition toLowerCase :: "string \<Rightarrow> string" where
  "toLowerCase s = map toLowerChar s"

text \<open>\<open>s.startsWith(t)\<close> and \<open>s.includes(t)\<close>.\<close>

fun startsWith :: "string \<Rightarrow> string \<Rightarrow> bool" where
  "startsWith s [] = True"
| "startsWith [] (c # cs) = False"
| "startsWith (x # xs) (c # cs) = (x = c \<and> startsWith xs cs)"

fun str_includes :: "string \<Rightarrow> string \<Rightarrow> bool" where
  "str_includes [] t = (t = [])"
| "str_includes (x # xs) t = (startsWith (x # xs) t \<or> str_includes xs t)"

definition isSpace :: "char \<Rightarrow> bool" where
  "isSpace c = (c \<in> set [CHR 0x09, CHR 0x0A, CHR 0x0B, CHR 0x0C, CHR 0x0D, CHR '' ''])"

text \<open>
  \<open>s.split(/\s+/)\<close>: the pieces between maximal runs of white space; a run at either end
  leaves an empty piece there, and the empty string gives one empty piece. The flag says
  that the scan is inside a run.
\<close>

fun split_ws :: "string \<Rightarrow> bool \<Rightarrow> string \<Rightarrow> string list" where
  "split_ws cur insep [] = [cur]"
| "split_ws cur insep (c # cs) =
     (if isSpace c then (if insep then split_ws cur True cs else cur # split_ws [] True cs)
      else split_ws (cur @ [c]) False cs)"

definition split_whitespace :: "string \<Rightarrow> string list" where
  "split_whitespace s = split_ws [] False s"

text \<open>\<open>s.split(".")\<close>.\<close>

fun split_at_dots :: "string \<Rightarrow> string \<Rightarrow> string list" where
  "split_at_dots cur [] = [cur]"
| "split_at_dots cur (c # cs) =
     (if c = CHR ''.'' then cur # split_at_dots [] cs else split_at_dots (cur @ [c]) cs)"

definition split_dot :: "string \<Rightarrow> string list" where
  "split_dot s = split_at_dots [] s"

text \<open>\<open>s.trim()\<close>.\<close>

definition trim :: "string \<Rightarrow> string" where
  "trim s = rev (dropWhile isSpace (rev (dropWhile isSpace s)))"

text \<open>Decimal digits of a number, as a template literal prints an integer.\<close>

fun show_nat :: "nat \<Rightarrow> string" where
  "show_nat n =
     (if n < 10 then [''0123456789'' ! n]
      else show_nat (n div 10) @ [''0123456789'' ! (n mod 10)])"

declare show_nat.simps [simp del]

text \<open>\<open>[...new Set(xs)]\<close>: every element once, in the order of first occurrence.\<close>

fun dedup_from :: "'a list \<Rightarrow> 'a list \<Rightarrow> 'a list" where
  "dedup_from seen [] = []"
| "dedup_from seen (x # xs) =
     (if x \<in> set seen then dedup_from seen xs else x # dedup_from (seen @ [x]) xs)"

definition dedup :: "'a list \<Rightarrow> 'a list" where
  "dedup xs = dedup_from [] xs"


section \<open>\<open>Array.prototype.sort\<close>\<close>

text \<open>
  \<open>xs.sort(cmp)\<close> is stable, and for a consistent comparator it returns the elements in
  the comparator's order. A stable insertion sort computes that array: an element goes in
  front of the first element it does not rank after (\<open>cmp x y \<le> 0\<close>), and the elements are
  inserted from the last to the first, so that equal elements keep their order. Both
  comparators below are consistent (lemmas \<open>time_cmp_key\<close> and \<open>relevance_cmp_key\<close>
  give each as the order of a key), and for such a comparator every stable sort returns
  the array computed here (lemma \<open>array_sort_is_the_stable_sort\<close>).
\<close>

fun insert_sorted :: "('a \<Rightarrow> 'a \<Rightarrow> int) \<Rightarrow> 'a \<Rightarrow> 'a list \<Rightarrow> 'a list" where
  "insert_sorted cmp x [] = [x]"
| "insert_sorted cmp x (y # ys) =
     (if cmp x y \<le> 0 then x # y # ys else y # insert_sorted cmp x ys)"

definition array_sort :: "('a \<Rightarrow> 'a \<Rightarrow> int) \<Rightarrow> 'a list \<Rightarrow> 'a list" where
  "array_sort cmp xs = foldr (insert_sorted cmp) xs []"

text \<open>
  Arrays are objects: a variable holds a reference. Where a claim is about which array a
  function writes to, the arrays live in a store, a list of arrays in which a reference is
  an index below the length. \<open>[...a]\<close> allocates a new array with the elements of \<open>a\<close>;
  \<open>a.sort(cmp)\<close> sorts the array in place and returns the same reference.
\<close>

type_synonym 'a store = "'a list list"

definition spread_copy :: "nat \<Rightarrow> 'a store \<Rightarrow> nat \<times> 'a store" where
  "spread_copy a h = (length h, h @ [h ! a])"

definition sort_in_place :: "('a \<Rightarrow> 'a \<Rightarrow> int) \<Rightarrow> nat \<Rightarrow> 'a store \<Rightarrow> nat \<times> 'a store" where
  "sort_in_place cmp a h = (a, h[a := array_sort cmp (h ! a)])"


section \<open>Content items (\<open>types.ts\<close>)\<close>

text \<open>
  The records keep the fields that the modelled functions read, and the identifier.
  \<open>_creationTime\<close> is a number of milliseconds; the code only takes the sign of a
  difference of two of them, so an integer stands for it. An optional field is an \<open>option\<close>.
\<close>

datatype link_type = Page | Youtube | Codepen

fun link_type_label :: "link_type \<Rightarrow> string" where
  "link_type_label Page = ''page''"
| "link_type_label Youtube = ''youtube''"
| "link_type_label Codepen = ''codepen''"

record KalpaTag =
  tag_id :: string
  tag_creationTime :: int
  tag_name :: string
  tag_color :: string

record KalpaUniverse =
  universe_id :: string
  universe_creationTime :: int
  universe_name :: string
  universe_color :: string

record KalpaLink =
  link_id :: string
  creationTime :: int
  url :: string
  title :: string
  domain :: string
  linkType :: "link_type option"
  is_read :: bool
  is_archived :: bool
  summary_preview :: "string option"
  tags :: "KalpaTag list option"
  universes :: "KalpaUniverse list option"


section \<open>Search helpers (\<open>utils/helpers.ts\<close>)\<close>

text \<open>\<open>formatDomain\<close>: \<open>domain.replace(/^www\./, "")\<close>.\<close>

definition formatDomain :: "string \<Rightarrow> string" where
  "formatDomain d = (if startsWith d ''www.'' then drop 4 d else d)"

definition extractKeywords :: "KalpaLink \<Rightarrow> string list" where
  "extractKeywords link =
     dedup
       (split_whitespace (toLowerCase (title link))
        @ [toLowerCase (formatDomain (domain link))]
        @ (case tags link of None \<Rightarrow> [] | Some ts \<Rightarrow> map (\<lambda>t. toLowerCase (tag_name t)) ts)
        @ (case universes link of None \<Rightarrow> []
           | Some us \<Rightarrow> map (\<lambda>u. toLowerCase (universe_name u)) us)
        @ (case linkType link of None \<Rightarrow> [] | Some t \<Rightarrow> [link_type_label t]))"

definition matchesSearch :: "KalpaLink \<Rightarrow> string \<Rightarrow> bool" where
  "matchesSearch link query =
     (if query = [] then True
      else
        let lowerQuery = toLowerCase query;
            keywords = extractKeywords link
        in if list_ex (\<lambda>k. str_includes k lowerQuery) keywords then True
           else if str_includes (toLowerCase (title link)) lowerQuery then True
           else if str_includes (toLowerCase (url link)) lowerQuery then True
           else if (case summary_preview link of None \<Rightarrow> False
                    | Some s \<Rightarrow> str_includes (toLowerCase s) lowerQuery) then True
           else False)"

text \<open>The two comparators of \<open>sortByRelevance\<close>; the first is also the one of \<open>useAllLinks\<close>.\<close>

definition time_cmp :: "KalpaLink \<Rightarrow> KalpaLink \<Rightarrow> int" where
  "time_cmp a b = creationTime b - creationTime a"

definition relevance_cmp :: "string \<Rightarrow> KalpaLink \<Rightarrow> KalpaLink \<Rightarrow> int" where
  "relevance_cmp lowerQuery a b =
     (let aExactTitle = (toLowerCase (title a) = lowerQuery);
          bExactTitle = (toLowerCase (title b) = lowerQuery)
      in if aExactTitle \<and> \<not> bExactTitle then - 1
         else if bExactTitle \<and> \<not> aExactTitle then 1
         else
           let aStartsTitle = startsWith (toLowerCase (title a)) lowerQuery;
               bStartsTitle = startsWith (toLowerCase (title b)) lowerQuery
           in if aStartsTitle \<and> \<not> bStartsTitle then - 1
              else if bStartsTitle \<and> \<not> aStartsTitle then 1
              else
                let aContainsTitle = str_includes (toLowerCase (title a)) lowerQuery;
                    bContainsTitle = str_includes (toLowerCase (title b)) lowerQuery
                in if aContainsTitle \<and> \<not> bContainsTitle then - 1
                   else if bContainsTitle \<and> \<not> aContainsTitle then 1
                   else creationTime b - creationTime a)"

definition sortByRelevance :: "KalpaLink list \<Rightarrow> string \<Rightarrow> KalpaLink list" where
  "sortByRelevance links query =
     (if query = [] then array_sort time_cmp links
      else array_sort (relevance_cmp (toLowerCase query)) links)"

text \<open>
  The same function on the store: \<open>links\<close> is a reference, \<open>[...links]\<close> a new array, and
  \<open>sort\<close> writes to the new array only.
\<close>

definition sortByRelevance_ref :: "nat \<Rightarrow> string \<Rightarrow> KalpaLink store \<Rightarrow> nat \<times> KalpaLink store" where
  "sortByRelevance_ref links query h =
     (if query = [] then
        (let (c, h1) = spread_copy links h in sort_in_place time_cmp c h1)
      else
        (let lowerQuery = toLowerCase query;
             (c, h1) = spread_copy links h
         in sort_in_place (relevance_cmp lowerQuery) c h1))"


section \<open>JavaScript values, thrown values and the platform\<close>

text \<open>
  A parsed JSON value. Numbers are integers (the code compares one with the clock and
  tests one for zero); an object is the list of its properties, looked up by name.
\<close>

datatype json =
  JNull | JBool bool | JNum int | JStr string | JArr "json list" | JObj "(string \<times> json) list"

text \<open>
  \<open>v.k\<close> for a value \<open>v\<close> other than \<open>null\<close>; \<open>None\<close> is \<open>undefined\<close>. Reading a
  property of \<open>null\<close> throws a \<open>TypeError\<close>, which the functions below write out where
  the value can be \<open>null\<close>.
\<close>

fun property :: "json \<Rightarrow> string \<Rightarrow> json option" where
  "property (JObj kvs) k = map_of kvs k"
| "property j k = None"

fun truthy :: "json \<Rightarrow> bool" where
  "truthy JNull = False"
| "truthy (JBool b) = b"
| "truthy (JNum n) = (n \<noteq> 0)"
| "truthy (JStr s) = (s \<noteq> [])"
| "truthy (JArr xs) = True"
| "truthy (JObj kvs) = True"

fun join_comma :: "string list \<Rightarrow> string" where
  "join_comma [] = []"
| "join_comma [s] = s"
| "join_comma (s # t # ss) = s @ '','' @ join_comma (t # ss)"

text \<open>\<open>String(v)\<close>, which \<open>new Error(v)\<close> applies to its argument.\<close>

fun js_String :: "json \<Rightarrow> string" where
  "js_String JNull = ''null''"
| "js_String (JBool b) = (if b then ''true'' else ''false'')"
| "js_String (JNum n) = (if n < 0 then ''-'' @ show_nat (nat (- n)) else show_nat (nat n))"
| "js_String (JStr s) = s"
| "js_String (JArr xs) = join_comma (map (\<lambda>x. if x = JNull then [] else js_String x) xs)"
| "js_String (JObj kvs) = ''[object Object]''"

text \<open>
  A thrown value is an \<open>Error\<close> object with its message, or some other value, given by
  its \<open>String(...)\<close>. The modelled code looks at nothing else of it.
\<close>

datatype js_thrown = Error string | NonError string

text \<open>\<open>error instanceof Error ? error : new Error(String(error))\<close>.\<close>

fun as_Error :: "js_thrown \<Rightarrow> js_thrown" where
  "as_Error (Error m) = Error m"
| "as_Error (NonError s) = Error s"

text \<open>
  The built-ins that the code calls and that are not modelled further:
  \<open>JSON.parse(s)\<close>, \<open>Buffer.from(s, "base64").toString("utf8")\<close>, and the \<open>TypeError\<close> of
  reading the named property of \<open>null\<close>. \<open>Inl\<close> is a throw.
\<close>

record platform =
  JSON_parse :: "string \<Rightarrow> js_thrown + json"
  base64_to_utf8 :: "string \<Rightarrow> js_thrown + string"
  null_property_error :: "string \<Rightarrow> js_thrown"


section \<open>The environment\<close>

text \<open>
  What the code does to the outside is a trace of events: a call of \<open>fetch\<close> with its URL,
  a timer wait in milliseconds, a toast (title, message, title of the primary action), a
  line on the error console. The network is an oracle: \<open>network w n\<close> is the outcome of the
  \<open>n\<close>-th call of \<open>fetch\<close>, a response or a throw (a timeout is a throw: the abort signal
  rejects the call). \<open>apiToken_pref\<close> is the preference \<open>apiToken\<close>, \<open>now_ms\<close> the value
  of \<open>Date.now()\<close> when the token guard reads it.
\<close>

record response =
  status :: nat
  body :: string

definition ok :: "response \<Rightarrow> bool" where
  "ok r = (200 \<le> status r \<and> status r \<le> 299)"

datatype event =
  Fetch string | Sleep nat | ShowToast string string "string option" | ConsoleError js_thrown

record world =
  apiToken_pref :: "string option"
  now_ms :: int
  network :: "nat \<Rightarrow> js_thrown + response"
  calls :: nat
  trace :: "event list"

definition emit :: "event \<Rightarrow> world \<Rightarrow> world" where
  "emit e w = w\<lparr>trace := trace w @ [e]\<rparr>"

definition showToast :: "string \<Rightarrow> string \<Rightarrow> string option \<Rightarrow> world \<Rightarrow> world" where
  "showToast t m a w = emit (ShowToast t m a) w"


section \<open>Token guard (\<open>utils/auth.ts\<close>)\<close>

definition getApiToken :: "string option \<Rightarrow> string option" where
  "getApiToken pref =
     (case pref of
        None \<Rightarrow> None
      | Some s \<Rightarrow> (let token = trim s in if token \<noteq> [] \<and> length token > 0 then Some token else None))"

text \<open>The loop \<open>while (base64.length % 4) base64 += "="\<close>.\<close>

function pad_base64 :: "string \<Rightarrow> string" where
  "pad_base64 s = (if length s mod 4 \<noteq> 0 then pad_base64 (s @ ''='') else s)"
  by pat_completeness auto
termination
proof (relation "measure (\<lambda>s. (4 - length s mod 4) mod 4)")
  show "wf (measure (\<lambda>s. (4 - length s mod 4) mod 4))" by simp
next
  fix s :: string
  assume a: "length s mod 4 \<noteq> 0"
  define n where "n = length s mod 4"
  have "n < 4" by (simp add: n_def)
  with a consider "n = 1" | "n = 2" | "n = 3"
    unfolding n_def by linarith
  moreover have "Suc (length s) mod 4 = Suc n mod 4"
    unfolding n_def by (rule mod_Suc_eq [symmetric])
  ultimately have "(4 - Suc (length s) mod 4) mod 4 < (4 - n) mod 4"
    by cases simp_all
  then show "(s @ ''='', s) \<in> measure (\<lambda>s. (4 - length s mod 4) mod 4)"
    by (simp add: n_def)
qed

declare pad_base64.simps [simp del]

definition base64UrlDecode :: "platform \<Rightarrow> string \<Rightarrow> string option" where
  "base64UrlDecode P segment =
     (let base64 = map (\<lambda>c. if c = CHR ''_'' then CHR ''/'' else c)
                     (map (\<lambda>c. if c = CHR ''-'' then CHR ''+'' else c) segment);
          base64 = pad_base64 base64
      in case base64_to_utf8 P base64 of Inl e \<Rightarrow> None | Inr s \<Rightarrow> Some s)"

text \<open>\<open>parseJwtClaims\<close> returns a JavaScript value; \<open>JNull\<close> is its \<open>null\<close>.\<close>

definition parseJwtClaims :: "platform \<Rightarrow> string \<Rightarrow> json" where
  "parseJwtClaims P token =
     (let parts = split_dot token
      in if length parts < 2 then JNull
         else case base64UrlDecode P (parts ! 1) of
                None \<Rightarrow> JNull
              | Some decoded \<Rightarrow>
                  if decoded = [] then JNull
                  else (case JSON_parse P decoded of Inl e \<Rightarrow> JNull | Inr claims \<Rightarrow> claims))"

text \<open>\<open>tokenIsExpired\<close>, with the value of \<open>Date.now()\<close> as an argument; \<open>None\<close> is \<open>null\<close>.\<close>

definition tokenIsExpired :: "platform \<Rightarrow> string \<Rightarrow> int \<Rightarrow> bool option" where
  "tokenIsExpired P token date_now =
     (let claims = parseJwtClaims P token
      in if \<not> truthy claims then None
         else case property claims ''exp'' of
                Some (JNum exp) \<Rightarrow> (let now = date_now div 1000 in Some (exp \<le> now))
              | _ \<Rightarrow> None)"

definition ensureValidTokenOrToast :: "platform \<Rightarrow> world \<Rightarrow> string option \<times> world" where
  "ensureValidTokenOrToast P w =
     (case getApiToken (apiToken_pref w) of
        None \<Rightarrow>
          (None, showToast ''Missing API token''
                   ''Set your API token in the Kalpa Raycast extension preferences.'' None w)
      | Some token \<Rightarrow>
          (let expired = tokenIsExpired P token (now_ms w)
           in if expired = Some True then
                (None, showToast ''API token expired''
                   ''Get a fresh token from the Kalpa web app (open /api/clerk-token) and paste it into Raycast preferences.''
                   None w)
              else (Some token, w)))"


section \<open>The client (\<open>utils/kalpa-client.ts\<close>)\<close>

definition DEFAULT_RETRIES :: nat where
  "DEFAULT_RETRIES = 3"

definition BASE_BACKOFF_MS :: nat where
  "BASE_BACKOFF_MS = 300"

definition CONVEX_URL :: string where
  "CONVEX_URL = ''https://convex.usekalpa.com''"

definition KALPA_APP_URL :: string where
  "KALPA_APP_URL = ''https://usekalpa.com''"

text \<open>
  \<open>fetchWithTimeout\<close>: one call of \<open>fetch\<close>. The request's method, headers and body do not
  reach any modelled decision and are left out.
\<close>

definition fetchWithTimeout :: "string \<Rightarrow> world \<Rightarrow> (js_thrown + response) \<times> world" where
  "fetchWithTimeout u w = (network w (calls w), emit (Fetch u) (w\<lparr>calls := calls w + 1\<rparr>))"

text \<open>
  The \<open>for\<close> loop of \<open>fetchWithRetry\<close> from the value \<open>attempt\<close> of its counter, with
  \<open>lastError\<close>, and what follows the loop. The retry budget is a natural number.
\<close>

function retry_loop ::
  "string \<Rightarrow> nat \<Rightarrow> nat \<Rightarrow> js_thrown option \<Rightarrow> world \<Rightarrow> (js_thrown + response) \<times> world" where
  "retry_loop u retries attempt lastError w =
     (if attempt \<le> retries then
        (case fetchWithTimeout u w of
           (Inr response, w1) \<Rightarrow> (Inr response, w1)
         | (Inl error, w1) \<Rightarrow>
             (let lastError' = as_Error error;
                  w2 = (if attempt < retries
                        then (let delay = BASE_BACKOFF_MS * 2 ^ attempt in emit (Sleep delay) w1)
                        else w1)
              in retry_loop u retries (attempt + 1) (Some lastError') w2))
      else
        (let w1 = showToast ''Connection Failed''
                    (''Could not reach Kalpa after '' @ show_nat (retries + 1) @ '' attempts'')
                    (Some ''Open Kalpa Web App'') w
         in (Inl (case lastError of Some e \<Rightarrow> e | None \<Rightarrow> Error ''Connection failed''), w1)))"
  by pat_completeness auto
termination
  by (relation "measure (\<lambda>(u, retries, attempt, lastError, w). retries + 1 - attempt)") auto

declare retry_loop.simps [simp del]

definition fetchWithRetry :: "string \<Rightarrow> nat \<Rightarrow> world \<Rightarrow> (js_thrown + response) \<times> world" where
  "fetchWithRetry u retries w = retry_loop u retries 0 None w"

text \<open>
  The block that \<open>query\<close>, \<open>mutation\<close>, \<open>getUniverses\<close> and \<open>saveLink\<close> each repeat: the
  message of the error for a response that is not ok, from the body text and the message
  prepared beforehand. The \<open>catch\<close> takes both the \<open>SyntaxError\<close> of \<open>JSON.parse\<close> and the
  \<open>TypeError\<close> of reading \<open>details\<close> from \<open>null\<close>.
\<close>

definition errorMessageFrom :: "platform \<Rightarrow> string \<Rightarrow> string \<Rightarrow> string" where
  "errorMessageFrom P errorText errorMessage =
     (case JSON_parse P errorText of
        Inl e \<Rightarrow> (if errorText \<noteq> [] then errorText else errorMessage)
      | Inr errorJson \<Rightarrow>
          if errorJson = JNull then (if errorText \<noteq> [] then errorText else errorMessage)
          else (case property errorJson ''details'' of
                  Some d \<Rightarrow>
                    if truthy d then js_String d
                    else (case property errorJson ''error'' of
                            Some e \<Rightarrow> if truthy e then js_String e else errorMessage
                          | None \<Rightarrow> errorMessage)
                | None \<Rightarrow>
                    (case property errorJson ''error'' of
                       Some e \<Rightarrow> if truthy e then js_String e else errorMessage
                     | None \<Rightarrow> errorMessage)))"

definition authToast :: "world \<Rightarrow> world" where
  "authToast w =
     showToast ''Authentication Required''
       ''Please update your API Token in extension preferences'' None w"

definition query :: "platform \<Rightarrow> string \<Rightarrow> world \<Rightarrow> (js_thrown + json) \<times> world" where
  "query P apiPath w =
     (case ensureValidTokenOrToast P w of
        (None, w1) \<Rightarrow> (Inl (Error ''Authentication required''), w1)
      | (Some token, w1) \<Rightarrow>
          (case fetchWithRetry (KALPA_APP_URL @ ''/api/'' @ apiPath) DEFAULT_RETRIES w1 of
             (Inl e, w2) \<Rightarrow> (Inl e, w2)
           | (Inr response, w2) \<Rightarrow>
               if \<not> ok response then
                 (let errorText = body response;
                      errorMessage = ''Query failed ('' @ show_nat (status response) @ '')'';
                      errorMessage = errorMessageFrom P errorText errorMessage;
                      w3 = (if status response = 401 then authToast w2 else w2)
                  in (Inl (Error errorMessage), w3))
               else (JSON_parse P (body response), w2)))"


text \<open>
  \<open>linksQuery\<close>, which \<open>getLinks\<close>, \<open>getVideos\<close> and \<open>getCodepenLinks\<close> call with their
  arguments as the request body.
\<close>

definition linksQuery :: "platform \<Rightarrow> world \<Rightarrow> (js_thrown + json) \<times> world" where
  "linksQuery P w =
     (case ensureValidTokenOrToast P w of
        (None, w1) \<Rightarrow> (Inl (Error ''Authentication required''), w1)
      | (Some token, w1) \<Rightarrow>
          (case fetchWithRetry (CONVEX_URL @ ''/http/links-list'') DEFAULT_RETRIES w1 of
             (Inl e, w2) \<Rightarrow> (Inl e, w2)
           | (Inr response, w2) \<Rightarrow>
               if \<not> ok response then
                 (let errorText = body response
                  in (Inl (Error (''Links query failed: '' @ errorText)), w2))
               else (JSON_parse P (body response), w2)))"




section \<open>The aggregation (\<open>hooks/useLinks.ts\<close>)\<close>

record LinkSearchOptions =
  search :: "string option"
  universeId :: "string option"
  tagId :: "string option"
  hideRead :: "bool option"
  hideArchived :: "bool option"
  numItems :: "nat option"

record PaginatedResponse =
  page :: "KalpaLink list"
  isDone :: bool
  continueCursor :: string

text \<open>
  The three operations of the client that \<open>useAllLinks\<close> calls, at the types their
  signatures declare: each runs in the environment and returns a page or throws.
\<close>

record client =
  getLinks :: "LinkSearchOptions \<Rightarrow> world \<Rightarrow> (js_thrown + PaginatedResponse) \<times> world"
  getVideos :: "LinkSearchOptions \<Rightarrow> world \<Rightarrow> (js_thrown + PaginatedResponse) \<times> world"
  getCodepenLinks :: "nat \<Rightarrow> string option \<Rightarrow> world \<Rightarrow> (js_thrown + PaginatedResponse) \<times> world"

text \<open>
  \<open>getLinks\<close>, \<open>getVideos\<close> and \<open>getCodepenLinks\<close> of \<open>KalpaClient\<close>: each calls
  \<open>linksQuery\<close> with its arguments as the request body, which the model leaves out, and
  returns the parsed value as a page of items. The cast is not checked at run time;
  \<open>as_page\<close> stands for it.
\<close>

definition KalpaClient_getLinks ::
  "platform \<Rightarrow> (json \<Rightarrow> PaginatedResponse) \<Rightarrow> LinkSearchOptions \<Rightarrow> world
     \<Rightarrow> (js_thrown + PaginatedResponse) \<times> world" where
  "KalpaClient_getLinks P as_page options w =
     (case linksQuery P w of (Inl e, w1) \<Rightarrow> (Inl e, w1) | (Inr data, w1) \<Rightarrow> (Inr (as_page data), w1))"

definition KalpaClient_getVideos ::
  "platform \<Rightarrow> (json \<Rightarrow> PaginatedResponse) \<Rightarrow> LinkSearchOptions \<Rightarrow> world
     \<Rightarrow> (js_thrown + PaginatedResponse) \<times> world" where
  "KalpaClient_getVideos P as_page options w =
     (case linksQuery P w of (Inl e, w1) \<Rightarrow> (Inl e, w1) | (Inr data, w1) \<Rightarrow> (Inr (as_page data), w1))"

definition KalpaClient_getCodepenLinks ::
  "platform \<Rightarrow> (json \<Rightarrow> PaginatedResponse) \<Rightarrow> nat \<Rightarrow> string option \<Rightarrow> world
     \<Rightarrow> (js_thrown + PaginatedResponse) \<times> world" where
  "KalpaClient_getCodepenLinks P as_page n universe w =
     (case linksQuery P w of (Inl e, w1) \<Rightarrow> (Inl e, w1) | (Inr data, w1) \<Rightarrow> (Inr (as_page data), w1))"

definition KalpaClient :: "platform \<Rightarrow> (json \<Rightarrow> PaginatedResponse) \<Rightarrow> client" where
  "KalpaClient P as_page =
     \<lparr>getLinks = KalpaClient_getLinks P as_page, getVideos = KalpaClient_getVideos P as_page,
      getCodepenLinks = KalpaClient_getCodepenLinks P as_page\<rparr>"

text \<open>The test of the \<open>catch\<close> clause: \<open>error instanceof Error && error.message.includes("Authentication")\<close>.\<close>

fun isAuthError :: "js_thrown \<Rightarrow> bool" where
  "isAuthError (Error m) = str_includes m ''Authentication''"
| "isAuthError (NonError s) = False"

definition useAllLinks_catch :: "js_thrown \<Rightarrow> world \<Rightarrow> (js_thrown + KalpaLink list) \<times> world" where
  "useAllLinks_catch error w =
     (let w1 = emit (ConsoleError error) w
      in if isAuthError error then (Inr [], w1) else (Inl error, w1))"

text \<open>The asynchronous function that \<open>useAllLinks\<close> hands to \<open>useCachedPromise\<close>.\<close>

definition useAllLinks_fetch ::
  "client \<Rightarrow> LinkSearchOptions \<Rightarrow> world \<Rightarrow> (js_thrown + KalpaLink list) \<times> world" where
  "useAllLinks_fetch c opts w =
     (let effectiveNumItems = (case numItems opts of None \<Rightarrow> 100 | Some n \<Rightarrow> if n = 0 then 100 else n);
          fetchOpts = opts\<lparr>numItems := Some effectiveNumItems\<rparr>
      in case getLinks c fetchOpts w of
           (Inl error, w1) \<Rightarrow> useAllLinks_catch error w1
         | (Inr linksResult, w1) \<Rightarrow>
             (case getVideos c fetchOpts w1 of
                (Inl error, w2) \<Rightarrow> useAllLinks_catch error w2
              | (Inr videosResult, w2) \<Rightarrow>
                  (case getCodepenLinks c effectiveNumItems (universeId opts) w2 of
                     (Inl error, w3) \<Rightarrow> useAllLinks_catch error w3
                   | (Inr codepenResult, w3) \<Rightarrow>
                       (let allLinks = page linksResult @ page videosResult @ page codepenResult
                        in (Inr (array_sort time_cmp allLinks), w3)))))"


section \<open>Notions of the specification\<close>

text \<open>
  The events of the attempts \<open>a\<close> to \<open>k - 1\<close> when each fails and is followed by its
  backoff wait, and the toast that \<open>fetchWithRetry\<close> shows when it gives up.
\<close>

definition failed_attempts :: "string \<Rightarrow> nat \<Rightarrow> nat \<Rightarrow> event list" where
  "failed_attempts u a k = concat (map (\<lambda>i. [Fetch u, Sleep (300 * 2 ^ i)]) [a..<k])"

definition connection_failed_toast :: "nat \<Rightarrow> event" where
  "connection_failed_toast retries =
     ShowToast ''Connection Failed''
       (''Could not reach Kalpa after '' @ show_nat (retries + 1) @ '' attempts'')
       (Some ''Open Kalpa Web App'')"


text \<open>
  A malformed credential: fewer than two segments between dots, or a second segment that
  does not decode, decodes to nothing, or does not parse.
\<close>

definition malformed :: "platform \<Rightarrow> string \<Rightarrow> bool" where
  "malformed P token =
     (length (split_dot token) < 2 \<or>
      (case base64UrlDecode P (split_dot token ! 1) of
         None \<Rightarrow> True
       | Some decoded \<Rightarrow> decoded = [] \<or> isl (JSON_parse P decoded)))"

text \<open>The page size and the options that \<open>useAllLinks\<close> passes to the three operations.\<close>

definition effectiveNumItems :: "LinkSearchOptions \<Rightarrow> nat" where
  "effectiveNumItems opts =
     (case numItems opts of None \<Rightarrow> 100 | Some n \<Rightarrow> if n = 0 then 100 else n)"

definition fetchOpts :: "LinkSearchOptions \<Rightarrow> LinkSearchOptions" where
  "fetchOpts opts = opts\<lparr>numItems := Some (effectiveNumItems opts)\<rparr>"

text \<open>
  The ranking as the specification words it: equality with the query beats its absence,
  then a prefix match beats its absence, then containment beats its absence, each on the
  lower-cased title, and the later creation time decides what is left.
\<close>

definition title_equals :: "string \<Rightarrow> KalpaLink \<Rightarrow> bool" where
  "title_equals q a = (toLowerCase (title a) = toLowerCase q)"

definition title_has_prefix :: "string \<Rightarrow> KalpaLink \<Rightarrow> bool" where
  "title_has_prefix q a = prefix (toLowerCase q) (toLowerCase (title a))"

definition title_contains :: "string \<Rightarrow> KalpaLink \<Rightarrow> bool" where
  "title_contains q a = sublist (toLowerCase q) (toLowerCase (title a))"

definition ranks_before :: "string \<Rightarrow> KalpaLink \<Rightarrow> KalpaLink \<Rightarrow> bool" where
  "ranks_before q a b =
     (if title_equals q a \<noteq> title_equals q b then title_equals q a
      else if title_has_prefix q a \<noteq> title_has_prefix q b then title_has_prefix q a
      else if title_contains q a \<noteq> title_contains q b then title_contains q a
      else creationTime b < creationTime a)"

text \<open>The sort key that both comparators order by: the tier, then the negated time.\<close>

definition tier :: "string \<Rightarrow> KalpaLink \<Rightarrow> nat" where
  "tier lowerQuery a =
     (if toLowerCase (title a) = lowerQuery then 0
      else if startsWith (toLowerCase (title a)) lowerQuery then 1
      else if str_includes (toLowerCase (title a)) lowerQuery then 2
      else 3)"

definition relevance_key :: "string \<Rightarrow> KalpaLink \<Rightarrow> nat \<times> int" where
  "relevance_key lowerQuery a = (tier lowerQuery a, - creationTime a)"

text \<open>
  Matching as the specification words it: the query occurs in a string without regard to
  case, and the keywords derived from an item are the words of its lower-cased title, its
  domain without a leading \<open>www.\<close>, the names of its tags and of its collections, and the
  label of its kind. The words of a string are its maximal runs of characters that are
  not white space, from left to right. These notions are written here on their own, not
  with the functions of \<open>helpers.ts\<close>.
\<close>

definition contains_ci :: "string \<Rightarrow> string \<Rightarrow> bool" where
  "contains_ci q s = sublist (toLowerCase q) (toLowerCase s)"

function words_of :: "string \<Rightarrow> string list" where
  "words_of s =
     (case dropWhile isSpace s of
        [] \<Rightarrow> []
      | c # cs \<Rightarrow> (c # takeWhile (\<lambda>x. \<not> isSpace x) cs) # words_of (dropWhile (\<lambda>x. \<not> isSpace x) cs))"
  by pat_completeness auto
termination
proof (relation "measure length")
  show "wf (measure length)" by simp
next
  fix s :: string and c cs
  assume a: "dropWhile isSpace s = c # cs"
  have "length (dropWhile (\<lambda>x. \<not> isSpace x) cs) \<le> length cs"
    by (rule length_dropWhile_le)
  moreover have "length (c # cs) \<le> length s"
    using length_dropWhile_le [of isSpace s] a by simp
  ultimately show "(dropWhile (\<lambda>x. \<not> isSpace x) cs, s) \<in> measure length"
    by simp
qed

declare words_of.simps [simp del]

definition without_www :: "string \<Rightarrow> string" where
  "without_www d = (if prefix ''www.'' d then drop 4 d else d)"

definition derived_keywords :: "KalpaLink \<Rightarrow> string set" where
  "derived_keywords link =
     set (words_of (toLowerCase (title link)))
     \<union> {without_www (domain link)}
     \<union> (case tags link of None \<Rightarrow> {} | Some ts \<Rightarrow> tag_name ` set ts)
     \<union> (case universes link of None \<Rightarrow> {} | Some us \<Rightarrow> universe_name ` set us)
     \<union> (case linkType link of None \<Rightarrow> {} | Some t \<Rightarrow> {link_type_label t})"

text \<open>
  An authentication error as the aggregation tells it: an \<open>Error\<close> whose message has the
  text \<open>Authentication\<close> in it.
\<close>

definition mentions_Authentication :: "js_thrown \<Rightarrow> bool" where
  "mentions_Authentication e =
     (case e of Error m \<Rightarrow> sublist ''Authentication'' m | NonError s \<Rightarrow> False)"


section \<open>Examples\<close>

text \<open>
  A platform for the examples. It gives what \<open>JSON.parse\<close> and \<open>Buffer\<close> give on the
  strings that the examples hand to them: three JSON texts, the base64 text of the first,
  and strings that are no JSON text and hold no full base64 group.
\<close>

definition example_platform :: platform where
  \<open>example_platform =
     \<lparr>JSON_parse = (\<lambda>s.
        if s = ''{"exp":1700000000}'' then Inr (JObj [(''exp'', JNum 1700000000)])
        else if s = ''{"details":"Token revoked","error":"Unauthorized"}''
          then Inr (JObj [(''details'', JStr ''Token revoked''), (''error'', JStr ''Unauthorized'')])
        else if s = ''{}'' then Inr (JObj [])
        else Inl (Error ''SyntaxError'')),
      base64_to_utf8 = (\<lambda>s.
        if s = ''eyJleHAiOjE3MDAwMDAwMDB9'' then Inr ''{"exp":1700000000}'' else Inr []),
      null_property_error = (\<lambda>k. Error (''Cannot read properties of null (reading '' @ k @ '')''))\<rparr>\<close>

text \<open>A token whose payload is \<open>{"exp":1700000000}\<close>.\<close>

definition example_jwt :: string where
  "example_jwt = ''eyJhbGciOiJIUzI1NiJ9.eyJleHAiOjE3MDAwMDAwMDB9.c2ln''"

text \<open>An environment at the start of an operation, with a token preference and a network.\<close>

definition example_world :: "string option \<Rightarrow> (nat \<Rightarrow> js_thrown + response) \<Rightarrow> world" where
  "example_world tok net =
     \<lparr>apiToken_pref = tok, now_ms = 1800000000000, network = net, calls = 0, trace = []\<rparr>"

definition offline_world :: world where
  "offline_world =
     example_world (Some ''tok'')
       (\<lambda>n. if n = 3 then Inl (NonError ''aborted'') else Inl (Error ''fetch failed''))"

definition flaky_world :: world where
  "flaky_world =
     example_world (Some ''tok'')
       (\<lambda>n. if n = 0 then Inl (Error ''fetch failed'') else Inr \<lparr>status = 503, body = ''busy''\<rparr>)"

definition unauthorized_world :: world where
  "unauthorized_world =
     example_world (Some ''tok'') (\<lambda>n. Inr \<lparr>status = 401, body = ''Unauthorized''\<rparr>)"



definition example_link :: "string \<Rightarrow> int \<Rightarrow> KalpaLink" where
  "example_link t c =
     \<lparr>link_id = t, creationTime = c, url = ''https://www.example.com/a'', title = t,
      domain = ''www.example.com'', linkType = Some Page, is_read = False, is_archived = False,
      summary_preview = None, tags = None, universes = None\<rparr>"

text \<open>A 500 response whose body has the word \<open>Authentication\<close> in it.\<close>

definition auth_outage_world :: world where
  "auth_outage_world =
     example_world (Some ''tok'')
       (\<lambda>n. Inr \<lparr>status = 500, body = ''Authentication service unavailable''\<rparr>)"

text \<open>An item whose title begins with a space and whose URL has no \<open>www\<close>.\<close>

definition spaced_link :: KalpaLink where
  "spaced_link = (example_link '' Learn Go go'' 1)\<lparr>url := ''https://example.com/a''\<rparr>"

definition example_page :: "int list \<Rightarrow> PaginatedResponse" where
  "example_page ts = \<lparr>page = map (example_link ''item'') ts, isDone = True, continueCursor = []\<rparr>"

definition example_options :: LinkSearchOptions where
  "example_options =
     \<lparr>search = None, universeId = None, tagId = None, hideRead = None, hideArchived = Some True,
      numItems = Some 100\<rparr>"

text \<open>A cast for the examples in which no page is looked at.\<close>

definition no_pages :: "json \<Rightarrow> PaginatedResponse" where
  "no_pages j = \<lparr>page = [], isDone = True, continueCursor = []\<rparr>"

text \<open>A client whose three operations have the given outcomes and leave the environment alone.\<close>

definition stub_client ::
  "js_thrown + PaginatedResponse \<Rightarrow> js_thrown + PaginatedResponse \<Rightarrow> js_thrown + PaginatedResponse
     \<Rightarrow> client" where
  "stub_client r1 r2 r3 =
     \<lparr>getLinks = (\<lambda>opts w. (r1, w)), getVideos = (\<lambda>opts w. (r2, w)),
      getCodepenLinks = (\<lambda>n u w. (r3, w))\<rparr>"


section \<open>Strings: facts\<close>

lemma startsWith_prefix: "startsWith s t = prefix t s"
  by (induction s t rule: startsWith.induct) auto

lemma startsWith_self [simp]: "startsWith s s"
  by (simp add: startsWith_prefix)

lemma str_includes_sublist: "str_includes s t = sublist t s"
proof (induction s)
  case Nil
  then show ?case by auto
next
  case (Cons x xs)
  then show ?case
    by (cases t) (auto simp: startsWith_prefix sublist_Cons_right)
qed

lemma startsWith_includes: "startsWith s t \<Longrightarrow> str_includes s t"
  by (cases s) (auto elim: startsWith.elims)

lemma set_dedup_from: "set (dedup_from seen xs) = set xs - set seen"
  by (induction xs arbitrary: seen) auto

lemma set_dedup [simp]: "set (dedup xs) = set xs"
  by (simp add: dedup_def set_dedup_from)

lemma distinct_dedup_from: "distinct (dedup_from seen xs)"
  by (induction xs arbitrary: seen) (auto simp: set_dedup_from)


section \<open>Sorting: facts\<close>

lemma mset_insert_sorted: "mset (insert_sorted cmp x xs) = add_mset x (mset xs)"
  by (induction xs) simp_all

lemma mset_array_sort: "mset (array_sort cmp xs) = mset xs"
  by (induction xs) (simp_all add: array_sort_def mset_insert_sorted)

lemma insert_sorted_insort_key:
  assumes "\<And>a b. (cmp a b \<le> 0) = (f a \<le> f b)"
  shows "insert_sorted cmp x ys = insort_key f x ys"
  by (induction ys) (simp_all add: assms)

lemma array_sort_sort_key:
  assumes "\<And>a b. (cmp a b \<le> 0) = (f a \<le> f b)"
  shows "array_sort cmp xs = sort_key f xs"
proof -
  have "insert_sorted cmp = insort_key f"
    by (intro ext) (rule insert_sorted_insort_key [OF assms])
  then show ?thesis
    by (simp add: array_sort_def sort_key_def)
qed

lemma array_sort_is_the_stable_sort:
  assumes "\<And>a b. (cmp a b \<le> 0) = (f a \<le> f b)"
    and "mset ys = mset xs"
    and "sorted (map f ys)"
    and "\<And>k. filter (\<lambda>x. f k = f x) ys = filter (\<lambda>x. f k = f x) xs"
  shows "ys = array_sort cmp xs"
  using properties_for_sort_key [of ys xs f] assms(2-4)
  by (simp add: array_sort_sort_key [of cmp f, OF assms(1)])

lemma time_cmp_key: "(time_cmp a b \<le> 0) = (- creationTime a \<le> - creationTime b)"
  by (simp add: time_cmp_def)

lemma relevance_cmp_key:
  "(relevance_cmp q a b \<le> 0) = (relevance_key q a \<le> relevance_key q b)"
proof -
  have sa: "toLowerCase (title a) = q \<Longrightarrow> startsWith (toLowerCase (title a)) q"
    and sb: "toLowerCase (title b) = q \<Longrightarrow> startsWith (toLowerCase (title b)) q"
    by auto
  have ca: "startsWith (toLowerCase (title a)) q \<Longrightarrow> str_includes (toLowerCase (title a)) q"
    and cb: "startsWith (toLowerCase (title b)) q \<Longrightarrow> str_includes (toLowerCase (title b)) q"
    by (rule startsWith_includes, assumption)+
  show ?thesis
    using sa sb ca cb
    by (auto simp: relevance_cmp_def relevance_key_def tier_def Let_def less_eq_prod_def)
qed

lemma sortByRelevance_sort_key:
  "sortByRelevance links q =
     (if q = [] then sort_key (\<lambda>a. - creationTime a) links
      else sort_key (relevance_key (toLowerCase q)) links)"
  by (simp add: sortByRelevance_def array_sort_sort_key [of time_cmp, OF time_cmp_key]
      array_sort_sort_key [of "relevance_cmp (toLowerCase q)", OF relevance_cmp_key])

section \<open>The retry loop: facts\<close>

lemma failed_attempts_step:
  "a < k \<Longrightarrow> failed_attempts u a k = [Fetch u, Sleep (300 * 2 ^ a)] @ failed_attempts u (Suc a) k"
  by (simp add: failed_attempts_def upt_conv_Cons)

lemma failed_attempts_empty [simp]: "failed_attempts u a a = []"
  by (simp add: failed_attempts_def)

lemma retry_loop_exhausted:
  assumes "retries < attempt"
  shows "retry_loop u retries attempt lastError w =
     (Inl (case lastError of Some e \<Rightarrow> e | None \<Rightarrow> Error ''Connection failed''),
      w\<lparr>trace := trace w @ [connection_failed_toast retries]\<rparr>)"
  using assms
  by (subst retry_loop.simps) (simp add: showToast_def emit_def connection_failed_toast_def)

lemma retry_loop_success:
  assumes "attempt \<le> retries" "network w (calls w) = Inr resp"
  shows "retry_loop u retries attempt lastError w =
     (Inr resp, w\<lparr>calls := calls w + 1, trace := trace w @ [Fetch u]\<rparr>)"
  using assms
  by (subst retry_loop.simps) (simp add: fetchWithTimeout_def emit_def)

lemma retry_loop_failure:
  assumes "attempt \<le> retries" "network w (calls w) = Inl e"
  shows "retry_loop u retries attempt lastError w =
     retry_loop u retries (attempt + 1) (Some (as_Error e))
       (w\<lparr>calls := calls w + 1,
          trace := trace w @ (if attempt < retries then [Fetch u, Sleep (300 * 2 ^ attempt)] else [Fetch u])\<rparr>)"
  using assms
  by (subst retry_loop.simps) (simp add: fetchWithTimeout_def emit_def BASE_BACKOFF_MS_def Let_def)

lemma retry_loop_all_fail:
  assumes "a \<le> r" "calls w = c0 + a"
    and "\<forall>i. a \<le> i \<and> i \<le> r \<longrightarrow> network w (c0 + i) = Inl (t i)"
  shows "retry_loop u r a le w =
     (Inl (as_Error (t r)),
      w\<lparr>calls := c0 + r + 1,
        trace := trace w @ failed_attempts u a r @ [Fetch u, connection_failed_toast r]\<rparr>)"
  using assms
proof (induction "r - a" arbitrary: a w le)
  case 0
  then have [simp]: "a = r" by simp
  from 0 have f: "network w (calls w) = Inl (t r)" by simp
  show ?case
    using 0(3) by (simp add: retry_loop_failure [OF _ f] retry_loop_exhausted)
next
  case (Suc n)
  then have lt: "a < r" by simp
  from Suc have f: "network w (calls w) = Inl (t a)" by simp
  let ?w = "w\<lparr>calls := calls w + 1, trace := trace w @ [Fetch u, Sleep (300 * 2 ^ a)]\<rparr>"
  have step: "retry_loop u r a le w = retry_loop u r (a + 1) (Some (as_Error (t a))) ?w"
    using lt by (simp add: retry_loop_failure [OF _ f])
  have "retry_loop u r (a + 1) (Some (as_Error (t a))) ?w =
     (Inl (as_Error (t r)),
      ?w\<lparr>calls := c0 + r + 1,
        trace := trace ?w @ failed_attempts u (a + 1) r @ [Fetch u, connection_failed_toast r]\<rparr>)"
    using Suc.prems Suc.hyps(2) lt by (intro Suc.hyps(1)) auto
  then show ?case
    using lt by (simp add: step failed_attempts_step)
qed

lemma retry_loop_succeeds_at:
  assumes "a \<le> k" "k \<le> r" "calls w = c0 + a"
    and "\<forall>i. a \<le> i \<and> i < k \<longrightarrow> network w (c0 + i) = Inl (t i)"
    and "network w (c0 + k) = Inr resp"
  shows "retry_loop u r a le w =
     (Inr resp,
      w\<lparr>calls := c0 + k + 1, trace := trace w @ failed_attempts u a k @ [Fetch u]\<rparr>)"
  using assms
proof (induction "k - a" arbitrary: a w le)
  case 0
  then have [simp]: "a = k" by simp
  from 0 have f: "network w (calls w) = Inr resp" by simp
  show ?case
    using 0 by (simp add: retry_loop_success [OF _ f])
next
  case (Suc n)
  then have lt: "a < k" "a < r" by simp_all
  from Suc have f: "network w (calls w) = Inl (t a)" by simp
  let ?w = "w\<lparr>calls := calls w + 1, trace := trace w @ [Fetch u, Sleep (300 * 2 ^ a)]\<rparr>"
  have step: "retry_loop u r a le w = retry_loop u r (a + 1) (Some (as_Error (t a))) ?w"
    using lt by (simp add: retry_loop_failure [OF _ f])
  have "retry_loop u r (a + 1) (Some (as_Error (t a))) ?w =
     (Inr resp,
      ?w\<lparr>calls := c0 + k + 1, trace := trace ?w @ failed_attempts u (a + 1) k @ [Fetch u]\<rparr>)"
    using Suc.prems Suc.hyps(2) lt by (intro Suc.hyps(1)) auto
  then show ?case
    using lt by (simp add: step failed_attempts_step)
qed

lemma fetchWithRetry_first_response:
  assumes "network w (calls w) = Inr resp"
  shows "fetchWithRetry u retries w = (Inr resp, w\<lparr>calls := calls w + 1, trace := trace w @ [Fetch u]\<rparr>)"
  by (simp add: fetchWithRetry_def retry_loop_success [OF _ assms])


section \<open>The token guard: facts\<close>

lemma malformed_claims: "malformed P token \<Longrightarrow> parseJwtClaims P token = JNull"
  by (auto simp: malformed_def parseJwtClaims_def Let_def split: option.splits sum.splits)

lemma property_Some_truthy: "property j k = Some v \<Longrightarrow> truthy j"
  by (cases j) simp_all


section \<open>The request operations: facts\<close>









lemma linksQuery_not_ok:
  assumes "ensureValidTokenOrToast P w = (Some token, w1)"
    and "fetchWithRetry (CONVEX_URL @ ''/http/links-list'') DEFAULT_RETRIES w1 = (Inr resp, w2)"
    and "\<not> ok resp"
  shows "linksQuery P w = (Inl (Error (''Links query failed: '' @ body resp)), w2)"
  unfolding linksQuery_def by (simp only: assms prod.case option.case sum.case Let_def if_True
      not_False_eq_True)

lemma linksQuery_no_token:
  assumes "fst (ensureValidTokenOrToast P w) = None"
  shows "linksQuery P w = (Inl (Error ''Authentication required''), snd (ensureValidTokenOrToast P w))"
  using assms by (cases "ensureValidTokenOrToast P w") (simp add: linksQuery_def)



section \<open>The aggregation: facts\<close>

lemma useAllLinks_fetch_links_raise:
  assumes "getLinks c (fetchOpts opts) w = (Inl e, w1)"
  shows "useAllLinks_fetch c opts w = useAllLinks_catch e w1"
  using assms by (simp add: useAllLinks_fetch_def fetchOpts_def effectiveNumItems_def Let_def)

lemma useAllLinks_fetch_videos_raise:
  assumes "getLinks c (fetchOpts opts) w = (Inr r1, w1)"
    and "getVideos c (fetchOpts opts) w1 = (Inl e, w2)"
  shows "useAllLinks_fetch c opts w = useAllLinks_catch e w2"
  using assms by (simp add: useAllLinks_fetch_def fetchOpts_def effectiveNumItems_def Let_def)

lemma useAllLinks_fetch_codepen_raise:
  assumes "getLinks c (fetchOpts opts) w = (Inr r1, w1)"
    and "getVideos c (fetchOpts opts) w1 = (Inr r2, w2)"
    and "getCodepenLinks c (effectiveNumItems opts) (universeId opts) w2 = (Inl e, w3)"
  shows "useAllLinks_fetch c opts w = useAllLinks_catch e w3"
  using assms by (simp add: useAllLinks_fetch_def fetchOpts_def effectiveNumItems_def Let_def)

lemma useAllLinks_fetch_all_return:
  assumes "getLinks c (fetchOpts opts) w = (Inr r1, w1)"
    and "getVideos c (fetchOpts opts) w1 = (Inr r2, w2)"
    and "getCodepenLinks c (effectiveNumItems opts) (universeId opts) w2 = (Inr r3, w3)"
  shows "useAllLinks_fetch c opts w = (Inr (array_sort time_cmp (page r1 @ page r2 @ page r3)), w3)"
  using assms by (simp add: useAllLinks_fetch_def fetchOpts_def effectiveNumItems_def Let_def)

lemma useAllLinks_catch_eq:
  "useAllLinks_catch e w = (if isAuthError e then Inr [] else Inl e, emit (ConsoleError e) w)"
  by (simp add: useAllLinks_catch_def Let_def)

lemma KalpaClient_sel [simp]:
  "getLinks (KalpaClient P as_page) = KalpaClient_getLinks P as_page"
  "getVideos (KalpaClient P as_page) = KalpaClient_getVideos P as_page"
  "getCodepenLinks (KalpaClient P as_page) = KalpaClient_getCodepenLinks P as_page"
  by (simp_all add: KalpaClient_def)

lemma isAuthError_mentions: "isAuthError e = mentions_Authentication e"
  by (cases e) (simp_all add: mentions_Authentication_def str_includes_sublist)

lemma useAllLinks_no_token:
  assumes "fst (ensureValidTokenOrToast P w) = None"
  shows "fst (useAllLinks_fetch (KalpaClient P as_page) opts w) = Inr []"
proof -
  have "getLinks (KalpaClient P as_page) (fetchOpts opts) w
      = (Inl (Error ''Authentication required''), snd (ensureValidTokenOrToast P w))"
    by (simp add: KalpaClient_getLinks_def linksQuery_no_token [OF assms])
  then show ?thesis
    by (simp add: useAllLinks_fetch_links_raise useAllLinks_catch_eq)
qed

lemma map_sort_key: "map f (sort_key f xs) = sort (map f xs)"
  by (rule properties_for_sort [symmetric]) simp_all

lemma array_sort_time: "array_sort time_cmp xs = sort_key (\<lambda>a. - creationTime a) xs"
  by (rule array_sort_sort_key) (rule time_cmp_key)

lemma times_array_sort:
  "map creationTime (array_sort time_cmp xs) = map uminus (sort (map uminus (map creationTime xs)))"
proof -
  have "map creationTime (array_sort time_cmp xs)
      = map uminus (map (\<lambda>a. - creationTime a) (sort_key (\<lambda>a. - creationTime a) xs))"
    by (simp add: array_sort_time comp_def)
  also have "\<dots> = map uminus (sort (map (\<lambda>a. - creationTime a) xs))"
    by (simp only: map_sort_key)
  finally show ?thesis by (simp add: comp_def)
qed

lemma descending_array_sort:
  "sorted_wrt (\<lambda>a b. creationTime b \<le> creationTime a) (array_sort time_cmp xs)"
proof -
  have "sorted (map (\<lambda>a. - creationTime a) (array_sort time_cmp xs))"
    by (simp add: array_sort_time)
  then show ?thesis
    by (simp add: sorted_map)
qed

lemma stable_array_sort:
  "filter (\<lambda>a. creationTime a = t) (array_sort time_cmp xs) = filter (\<lambda>a. creationTime a = t) xs"
  using sort_key_stable [of "\<lambda>a. - creationTime a" "- t" xs]
  by (simp add: array_sort_time)


section \<open>Ranking and matching: facts\<close>

lemma toLowerChar_not_upper: "toLowerChar c \<notin> set upper_letters"
proof (cases "map_of (zip upper_letters lower_letters) c")
  case None
  then have "c \<notin> fst ` set (zip upper_letters lower_letters)"
    by (simp add: map_of_eq_None_iff)
  moreover have "fst ` set (zip upper_letters lower_letters) = set upper_letters"
    by (simp add: upper_letters_def lower_letters_def)
  ultimately show ?thesis
    using None by (simp add: toLowerChar_def)
next
  case (Some d)
  then have "d \<in> set lower_letters"
    by (auto dest!: map_of_SomeD set_zip_rightD)
  then have "d \<notin> set upper_letters"
    by (auto simp: upper_letters_def lower_letters_def)
  then show ?thesis
    using Some by (simp add: toLowerChar_def)
qed

lemma toLowerChar_fixed: "c \<notin> set upper_letters \<Longrightarrow> toLowerChar c = c"
proof -
  assume "c \<notin> set upper_letters"
  moreover have "fst ` set (zip upper_letters lower_letters) = set upper_letters"
    by (simp add: upper_letters_def lower_letters_def)
  ultimately have "map_of (zip upper_letters lower_letters) c = None"
    by (simp add: map_of_eq_None_iff)
  then show ?thesis by (simp add: toLowerChar_def)
qed

lemma toLowerCase_fixed: "set s \<inter> set upper_letters = {} \<Longrightarrow> toLowerCase s = s"
  by (induction s) (auto simp: toLowerCase_def toLowerChar_fixed)

lemma toLowerCase_no_upper: "set (toLowerCase s) \<inter> set upper_letters = {}"
  using toLowerChar_not_upper by (auto simp: toLowerCase_def)

lemma split_ws_chars: "w \<in> set (split_ws cur b s) \<Longrightarrow> set w \<subseteq> set cur \<union> set s"
  by (induction cur b s rule: split_ws.induct) (auto split: if_splits)

lemma split_whitespace_lower:
  assumes "w \<in> set (split_whitespace (toLowerCase s))"
  shows "toLowerCase w = w"
proof -
  have "set w \<subseteq> set (toLowerCase s)"
    using split_ws_chars [of w "[]" False "toLowerCase s"] assms
    by (simp add: split_whitespace_def)
  then show ?thesis
    using toLowerCase_no_upper [of s] by (intro toLowerCase_fixed) blast
qed

lemma link_type_label_lower: "toLowerCase (link_type_label t) = link_type_label t"
  by (cases t) (simp_all add: toLowerCase_def toLowerChar_def upper_letters_def lower_letters_def)

lemma split_ws_in_run:
  "split_ws [] True r = (case dropWhile isSpace r of [] \<Rightarrow> [[]] | c # cs \<Rightarrow> split_ws [] False (c # cs))"
  by (induction r) (auto split: list.splits)

lemma split_ws_in_word:
  "split_ws cur False r =
     (case dropWhile (\<lambda>x. \<not> isSpace x) r of
        [] \<Rightarrow> [cur @ r]
      | c # cs \<Rightarrow> (cur @ takeWhile (\<lambda>x. \<not> isSpace x) r) # split_ws [] True (c # cs))"
proof (induction r arbitrary: cur)
  case Nil
  then show ?case by simp
next
  case (Cons x xs)
  show ?case
  proof (cases "isSpace x")
    case True
    then show ?thesis by simp
  next
    case False
    have "split_ws cur False (x # xs) = split_ws (cur @ [x]) False xs"
      using False by simp
    also have "\<dots> =
       (case dropWhile (\<lambda>x. \<not> isSpace x) xs of
          [] \<Rightarrow> [(cur @ [x]) @ xs]
        | c # cs \<Rightarrow> ((cur @ [x]) @ takeWhile (\<lambda>x. \<not> isSpace x) xs) # split_ws [] True (c # cs))"
      by (rule Cons.IH)
    also have "\<dots> =
       (case dropWhile (\<lambda>x. \<not> isSpace x) (x # xs) of
          [] \<Rightarrow> [cur @ x # xs]
        | c # cs \<Rightarrow> (cur @ takeWhile (\<lambda>x. \<not> isSpace x) (x # xs)) # split_ws [] True (c # cs))"
      using False by (cases "dropWhile (\<lambda>x. \<not> isSpace x) xs")
        (simp_all del: dropWhile_eq_Nil_conv split_ws.simps)
    finally show ?thesis .
  qed
qed

lemma words_of_Nil [simp]: "words_of [] = []"
  by (simp add: words_of.simps)

lemma words_of_space: "isSpace c \<Longrightarrow> words_of (c # cs) = words_of cs"
  by (subst words_of.simps, subst (2) words_of.simps) simp

lemma nonempty_split_ws_in_run:
  "filter (\<lambda>w. w \<noteq> []) (split_ws [] True s) = words_of s"
proof (induction s rule: words_of.induct)
  case (1 s)
  show ?case
  proof (cases "dropWhile isSpace s")
    case Nil
    then have "split_ws [] True s = [[]]" "words_of s = []"
      by (simp_all add: split_ws_in_run [of s] words_of.simps [of s] del: dropWhile_eq_Nil_conv)
    then show ?thesis by simp
  next
    case (Cons c cs)
    have c: "\<not> isSpace c"
      using hd_dropWhile [of isSpace s] Cons by auto
    have run: "split_ws [] True s = split_ws [] False (c # cs)"
      using Cons by (simp add: split_ws_in_run [of s] del: split_ws.simps)
    have w: "words_of s
        = (c # takeWhile (\<lambda>x. \<not> isSpace x) cs) # words_of (dropWhile (\<lambda>x. \<not> isSpace x) cs)"
      using Cons by (simp add: words_of.simps [of s])
    show ?thesis
    proof (cases "dropWhile (\<lambda>x. \<not> isSpace x) cs")
      case Nil
      then have t: "takeWhile (\<lambda>x. \<not> isSpace x) cs = cs"
        by (metis append_Nil2 takeWhile_dropWhile_id)
      have "split_ws [] False (c # cs) = [c # cs]"
        using Nil c by (simp add: split_ws_in_word [of "[]" "c # cs"]
            del: split_ws.simps dropWhile_eq_Nil_conv)
      then show ?thesis
        using Nil by (simp add: run w t del: dropWhile_eq_Nil_conv)
    next
      case r: (Cons d ds)
      have "split_ws [] False (c # cs)
          = (c # takeWhile (\<lambda>x. \<not> isSpace x) cs) # split_ws [] True (d # ds)"
        using r c by (simp add: split_ws_in_word [of "[]" "c # cs"] del: split_ws.simps)
      moreover from "1.IH" [OF Cons] r
      have "filter (\<lambda>w. w \<noteq> []) (split_ws [] True (d # ds)) = words_of (d # ds)"
        by simp
      ultimately show ?thesis
        using r by (simp add: run w del: split_ws.simps)
    qed
  qed
qed

lemma nonempty_split_whitespace:
  "filter (\<lambda>w. w \<noteq> []) (split_whitespace s) = words_of s"
proof (cases s)
  case Nil
  then show ?thesis by (simp add: split_whitespace_def)
next
  case (Cons c cs)
  show ?thesis
  proof (cases "isSpace c")
    case True
    then show ?thesis
      using nonempty_split_ws_in_run [of cs] Cons
      by (simp add: split_whitespace_def words_of_space)
  next
    case False
    then have "split_ws [] True s = split_ws [] False s"
      using Cons by (simp add: split_ws_in_run)
    then show ?thesis
      using nonempty_split_ws_in_run [of s] by (simp add: split_whitespace_def)
  qed
qed


lemma last_dropWhile: "dropWhile P xs \<noteq> [] \<Longrightarrow> last (dropWhile P xs) = last xs"
  by (induction xs) (auto split: if_splits)

lemma empty_piece_in_run:
  "[] \<in> set (split_ws [] True s) \<longleftrightarrow> s = [] \<or> isSpace (last s)"
proof (induction s rule: words_of.induct)
  case (1 s)
  show ?case
  proof (cases "dropWhile isSpace s")
    case Nil
    then have "split_ws [] True s = [[]]"
      by (simp add: split_ws_in_run [of s] del: dropWhile_eq_Nil_conv)
    moreover have "s = [] \<or> isSpace (last s)"
      using Nil by (cases "s = []") auto
    ultimately show ?thesis by simp
  next
    case (Cons c cs)
    have c: "\<not> isSpace c"
      using hd_dropWhile [of isSpace s] Cons by auto
    have s: "s \<noteq> []" "last s = last (c # cs)"
      using Cons last_dropWhile [of isSpace s] by auto
    have run: "split_ws [] True s = split_ws [] False (c # cs)"
      using Cons by (simp add: split_ws_in_run [of s] del: split_ws.simps)
    show ?thesis
    proof (cases "dropWhile (\<lambda>x. \<not> isSpace x) cs")
      case Nil
      then have "split_ws [] False (c # cs) = [c # cs]"
        using c by (simp add: split_ws_in_word [of "[]" "c # cs"]
            del: split_ws.simps dropWhile_eq_Nil_conv)
      moreover have "\<forall>x\<in>set (c # cs). \<not> isSpace x"
        using Nil c by simp
      then have "\<not> isSpace (last (c # cs))"
        using last_in_set [of "c # cs"] by blast
      ultimately show ?thesis
        using s by (simp add: run)
    next
      case r: (Cons d ds)
      have "split_ws [] False (c # cs)
          = (c # takeWhile (\<lambda>x. \<not> isSpace x) cs) # split_ws [] True (d # ds)"
        using r c by (simp add: split_ws_in_word [of "[]" "c # cs"] del: split_ws.simps)
      moreover from "1.IH" [OF Cons] r
      have "[] \<in> set (split_ws [] True (d # ds)) \<longleftrightarrow> isSpace (last (d # ds))"
        by simp
      moreover have "last (d # ds) = last (c # cs)"
        using r last_dropWhile [of "\<lambda>x. \<not> isSpace x" cs] by auto
      ultimately show ?thesis
        using s by (simp add: run del: split_ws.simps)
    qed
  qed
qed

lemma empty_piece_of_split:
  "[] \<in> set (split_whitespace s) \<longleftrightarrow> s = [] \<or> isSpace (hd s) \<or> isSpace (last s)"
proof (cases s)
  case Nil
  then show ?thesis by (simp add: split_whitespace_def)
next
  case (Cons c cs)
  show ?thesis
  proof (cases "isSpace c")
    case True
    then show ?thesis
      using Cons by (simp add: split_whitespace_def)
  next
    case False
    then have "split_ws [] True s = split_ws [] False s"
      using Cons by (simp add: split_ws_in_run)
    then show ?thesis
      using empty_piece_in_run [of s] False Cons by (simp add: split_whitespace_def)
  qed
qed

lemma set_split_whitespace:
  "set (split_whitespace s)
     = set (words_of s) \<union> (if s = [] \<or> isSpace (hd s) \<or> isSpace (last s) then {[]} else {})"
proof -
  have "set (words_of s) = set (split_whitespace s) - {[]}"
    by (auto simp flip: nonempty_split_whitespace)
  then show ?thesis
    using empty_piece_of_split [of s] by auto
qed

lemma isSpace_toLowerChar: "isSpace (toLowerChar c) = isSpace c"
proof (cases "c \<in> set upper_letters")
  case True
  then have "\<not> isSpace c"
    by (auto simp: upper_letters_def isSpace_def)
  moreover have "toLowerChar c \<in> set lower_letters"
  proof (cases "map_of (zip upper_letters lower_letters) c")
    case None
    then have "c \<notin> fst ` set (zip upper_letters lower_letters)"
      by (simp add: map_of_eq_None_iff)
    moreover have "fst ` set (zip upper_letters lower_letters) = set upper_letters"
      by (simp add: upper_letters_def lower_letters_def)
    ultimately show ?thesis using True by simp
  next
    case (Some d)
    then have "d \<in> set lower_letters"
      by (auto dest!: map_of_SomeD set_zip_rightD)
    then show ?thesis using Some by (simp add: toLowerChar_def)
  qed
  then have "\<not> isSpace (toLowerChar c)"
    by (auto simp: lower_letters_def isSpace_def)
  ultimately show ?thesis by simp
next
  case False
  then show ?thesis by (simp add: toLowerChar_fixed)
qed

lemma edge_toLowerCase:
  "(toLowerCase s = [] \<or> isSpace (hd (toLowerCase s)) \<or> isSpace (last (toLowerCase s)))
     = (s = [] \<or> isSpace (hd s) \<or> isSpace (last s))"
  by (cases "s = []") (simp_all add: toLowerCase_def hd_map last_map isSpace_toLowerChar)

lemma words_of_lower:
  assumes "w \<in> set (words_of (toLowerCase s))"
  shows "toLowerCase w = w"
proof -
  have "w \<in> set (split_whitespace (toLowerCase s))"
    using assms by (simp add: set_split_whitespace)
  then show ?thesis by (rule split_whitespace_lower)
qed

lemma without_www_formatDomain: "formatDomain d = without_www d"
  by (simp add: formatDomain_def without_www_def startsWith_prefix)

lemma set_extractKeywords:
  "set (extractKeywords link) =
     toLowerCase ` derived_keywords link
     \<union> (if title link = [] \<or> isSpace (hd (title link)) \<or> isSpace (last (title link))
        then {[]} else {})"
proof -
  have w: "toLowerCase ` set (words_of (toLowerCase (title link)))
      = set (words_of (toLowerCase (title link)))"
    by (auto simp: words_of_lower image_iff)
  show ?thesis
    unfolding extractKeywords_def derived_keywords_def set_dedup set_append image_Un w
      set_split_whitespace edge_toLowerCase without_www_formatDomain
    by (auto simp: link_type_label_lower image_image split: option.splits)
qed

lemma contains_ci_empty: "q \<noteq> [] \<Longrightarrow> \<not> contains_ci q []"
  by (simp add: contains_ci_def toLowerCase_def)

lemma contains_ci_lower: "contains_ci q (toLowerCase k) = contains_ci q k"
proof -
  have "toLowerCase (toLowerCase k) = toLowerCase k"
    using toLowerCase_no_upper [of k] by (rule toLowerCase_fixed)
  then show ?thesis by (simp add: contains_ci_def)
qed

lemma distinct_extractKeywords: "distinct (extractKeywords link)"
  by (simp add: extractKeywords_def dedup_def distinct_dedup_from)


lemma ranks_before_key:
  "ranks_before q a b = (relevance_key (toLowerCase q) a < relevance_key (toLowerCase q) b)"
proof -
  have sa: "\<And>x. toLowerCase (title x) = toLowerCase q \<Longrightarrow>
      startsWith (toLowerCase (title x)) (toLowerCase q)"
    by auto
  have ca: "\<And>x. startsWith (toLowerCase (title x)) (toLowerCase q) \<Longrightarrow>
      str_includes (toLowerCase (title x)) (toLowerCase q)"
    by (rule startsWith_includes)
  show ?thesis
    using sa[of a] sa[of b] ca[of a] ca[of b]
    by (auto simp: ranks_before_def relevance_key_def tier_def title_equals_def title_has_prefix_def
        title_contains_def less_prod_def simp flip: startsWith_prefix str_includes_sublist)
qed

lemma relevance_cmp_negative:
  "(relevance_cmp lq a b < 0) = (relevance_key lq a < relevance_key lq b)"
proof -
  have sa: "\<And>x. toLowerCase (title x) = lq \<Longrightarrow> startsWith (toLowerCase (title x)) lq"
    by auto
  have ca: "\<And>x. startsWith (toLowerCase (title x)) lq \<Longrightarrow> str_includes (toLowerCase (title x)) lq"
    by (rule startsWith_includes)
  show ?thesis
    using sa[of a] sa[of b] ca[of a] ca[of b]
    by (auto simp: relevance_cmp_def relevance_key_def tier_def Let_def less_prod_def)
qed

lemma relevance_cmp_positive:
  "(0 < relevance_cmp lq a b) = (relevance_key lq b < relevance_key lq a)"
  using relevance_cmp_key [of lq a b] by auto

lemma sorted_wrt_key:
  "sorted (map f xs) \<Longrightarrow> sorted_wrt (\<lambda>a b. \<not> f b < f a) xs"
  by (induction xs) (auto simp: not_less)

lemma sortByRelevance_ranked:
  assumes "q \<noteq> []"
  shows "sorted_wrt (\<lambda>a b. \<not> ranks_before q b a) (sortByRelevance links q)"
proof -
  have "sorted (map (relevance_key (toLowerCase q)) (sortByRelevance links q))"
    using assms by (simp add: sortByRelevance_sort_key)
  then have "sorted_wrt
      (\<lambda>a b. \<not> relevance_key (toLowerCase q) b < relevance_key (toLowerCase q) a)
      (sortByRelevance links q)"
    by (rule sorted_wrt_key)
  then show ?thesis
    by (simp add: ranks_before_key)
qed


section \<open>The examples: facts\<close>

lemma example_world_sel [simp]:
  "apiToken_pref (example_world tok net) = tok"
  "now_ms (example_world tok net) = 1800000000000"
  "network (example_world tok net) = net"
  "calls (example_world tok net) = 0"
  "trace (example_world tok net) = []"
  by (simp_all add: example_world_def)

lemma ensure_opaque_token:
  "ensureValidTokenOrToast P (example_world (Some ''tok'') net)
     = (Some ''tok'', example_world (Some ''tok'') net)"
  by (simp add: ensureValidTokenOrToast_def getApiToken_def trim_def isSpace_def
      tokenIsExpired_def parseJwtClaims_def split_dot_def Let_def)

lemma claims_example_jwt:
  \<open>parseJwtClaims example_platform example_jwt = JObj [(''exp'', JNum 1700000000)]\<close>
  by (simp add: parseJwtClaims_def example_jwt_def split_dot_def base64UrlDecode_def
      pad_base64.simps example_platform_def Let_def)

lemma claims_not_a_jwt: "parseJwtClaims example_platform ''not-a-jwt'' = JNull"
  by (simp add: parseJwtClaims_def split_dot_def Let_def)


lemma getApiToken_examples:
  "getApiToken (Some ''not-a-jwt'') = Some ''not-a-jwt''"
  "getApiToken (Some '' a.b '') = Some ''a.b''"
  "getApiToken (Some ''  '') = None"
  "getApiToken None = None"
  by (simp_all add: getApiToken_def trim_def isSpace_def)

lemma malformed_examples:
  "malformed example_platform ''not-a-jwt''"
  "malformed example_platform ''a.b''"
  by (simp_all add: malformed_def split_dot_def base64UrlDecode_def pad_base64.simps
      example_platform_def)

lemma getApiToken_example_jwt: "getApiToken (Some example_jwt) = Some example_jwt"
  by (simp add: getApiToken_def trim_def isSpace_def example_jwt_def)

lemma tokenIsExpired_example:
  "tokenIsExpired example_platform example_jwt 1800000000000 = Some True"
  by (simp add: tokenIsExpired_def claims_example_jwt)

lemma stub_client_sel [simp]:
  "getLinks (stub_client r1 r2 r3) o1 w = (r1, w)"
  "getVideos (stub_client r1 r2 r3) o1 w = (r2, w)"
  "getCodepenLinks (stub_client r1 r2 r3) n u w = (r3, w)"
  by (simp_all add: stub_client_def)

lemma sortByRelevance_go_example:
  "map title (sortByRelevance
      [x\<lparr>title := ''Go''\<rparr>, y\<lparr>title := ''Going''\<rparr>, z\<lparr>title := ''Foo Go Bar''\<rparr>] ''go'')
    = [''Go'', ''Going'', ''Foo Go Bar'']"
  "map title (sortByRelevance
      [z\<lparr>title := ''Foo Go Bar''\<rparr>, y\<lparr>title := ''Going''\<rparr>, x\<lparr>title := ''Go''\<rparr>] ''go'')
    = [''Go'', ''Going'', ''Foo Go Bar'']"
  by (simp_all add: sortByRelevance_def array_sort_def relevance_cmp_def toLowerCase_def
      toLowerChar_def upper_letters_def lower_letters_def)

lemma sortByRelevance_example_run:
  "sortByRelevance
     [example_link ''Foo Go Bar'' 9, example_link ''Going'' 5, example_link ''Go'' 1,
      example_link ''Gopher'' 7, example_link ''GO'' 2, example_link ''Rust'' 100] ''go''
   = [example_link ''GO'' 2, example_link ''Go'' 1, example_link ''Gopher'' 7,
      example_link ''Going'' 5, example_link ''Foo Go Bar'' 9, example_link ''Rust'' 100]"
  by (simp add: sortByRelevance_def array_sort_def relevance_cmp_def toLowerCase_def
      toLowerChar_def upper_letters_def lower_letters_def example_link_def)

lemma example_link_sel [simp]:
  "title (example_link t c) = t"
  "creationTime (example_link t c) = c"
  "url (example_link t c) = ''https://www.example.com/a''"
  "summary_preview (example_link t c) = None"
  by (simp_all add: example_link_def)

lemma sortByRelevance_copy_examples:
  "sortByRelevance [example_link ''Foo Go Bar'' 9, example_link ''Going'' 5, example_link ''Go'' 1] ''go''
      = [example_link ''Go'' 1, example_link ''Going'' 5, example_link ''Foo Go Bar'' 9]"
  "sortByRelevance [example_link ''a'' 1, example_link ''b'' 3, example_link ''c'' 2] []
      = [example_link ''b'' 3, example_link ''c'' 2, example_link ''a'' 1]"
  by (simp_all add: sortByRelevance_def array_sort_def relevance_cmp_def time_cmp_def
      toLowerCase_def toLowerChar_def upper_letters_def lower_letters_def example_link_def)

lemma fetch_example_response:
  "fetchWithRetry u r (example_world tok (\<lambda>n. Inr resp))
     = (Inr resp, (example_world tok (\<lambda>n. Inr resp))\<lparr>calls := 1, trace := [Fetch u]\<rparr>)"
  using fetchWithRetry_first_response [of "example_world tok (\<lambda>n. Inr resp)" resp u r]
  by simp


lemma fetchWithRetry_offline:
  "fetchWithRetry u DEFAULT_RETRIES offline_world =
     (Inl (Error ''aborted''),
      offline_world
        \<lparr>calls := 4,
         trace := [Fetch u, Sleep 300, Fetch u, Sleep 600, Fetch u, Sleep 1200, Fetch u,
                   connection_failed_toast 3]\<rparr>)"
proof -
  have "\<forall>i. 0 \<le> i \<and> i \<le> 3 \<longrightarrow> network offline_world (0 + i)
      = Inl (if i = 3 then NonError ''aborted'' else Error ''fetch failed'')"
    by (simp add: offline_world_def)
  from retry_loop_all_fail [of 0 3 offline_world 0 _ u None, OF _ _ this]
  show ?thesis
    by (simp add: fetchWithRetry_def DEFAULT_RETRIES_def offline_world_def failed_attempts_def upt_rec)
qed

lemma linksQuery_offline:
  "linksQuery P offline_world =
     (Inl (Error ''aborted''),
      offline_world
        \<lparr>calls := 4,
         trace := [Fetch ''https://convex.usekalpa.com/http/links-list'', Sleep 300,
                   Fetch ''https://convex.usekalpa.com/http/links-list'', Sleep 600,
                   Fetch ''https://convex.usekalpa.com/http/links-list'', Sleep 1200,
                   Fetch ''https://convex.usekalpa.com/http/links-list'',
                   connection_failed_toast 3]\<rparr>)"
proof -
  have "ensureValidTokenOrToast P offline_world = (Some ''tok'', offline_world)"
    unfolding offline_world_def by (rule ensure_opaque_token)
  then show ?thesis
    by (simp add: linksQuery_def fetchWithRetry_offline CONVEX_URL_def)
qed

lemma ensure_no_token:
  "ensureValidTokenOrToast P (example_world None net) =
     (None, (example_world None net)
        \<lparr>trace := [ShowToast ''Missing API token''
           ''Set your API token in the Kalpa Raycast extension preferences.'' None]\<rparr>)"
  by (simp add: ensureValidTokenOrToast_def getApiToken_def showToast_def emit_def)

lemma ensure_expired_token:
  "ensureValidTokenOrToast example_platform (example_world (Some example_jwt) net) =
     (None, (example_world (Some example_jwt) net)
        \<lparr>trace := [ShowToast ''API token expired''
           ''Get a fresh token from the Kalpa web app (open /api/clerk-token) and paste it into Raycast preferences.'' None]\<rparr>)"
  by (simp add: ensureValidTokenOrToast_def getApiToken_example_jwt tokenIsExpired_example
      showToast_def emit_def)

lemma getLinks_no_token:
  "KalpaClient_getLinks P as_page options (example_world None net) =
     (Inl (Error ''Authentication required''),
      (example_world None net)
        \<lparr>trace := [ShowToast ''Missing API token''
           ''Set your API token in the Kalpa Raycast extension preferences.'' None]\<rparr>)"
  by (simp add: KalpaClient_getLinks_def linksQuery_def ensure_no_token)

lemma getLinks_expired_token:
  "KalpaClient_getLinks example_platform as_page options (example_world (Some example_jwt) net) =
     (Inl (Error ''Authentication required''),
      (example_world (Some example_jwt) net)
        \<lparr>trace := [ShowToast ''API token expired''
           ''Get a fresh token from the Kalpa web app (open /api/clerk-token) and paste it into Raycast preferences.'' None]\<rparr>)"
  by (simp add: KalpaClient_getLinks_def linksQuery_def ensure_expired_token)

lemma getLinks_offline:
  "KalpaClient_getLinks P as_page options offline_world =
     (Inl (Error ''aborted''),
      offline_world
        \<lparr>calls := 4,
         trace := [Fetch ''https://convex.usekalpa.com/http/links-list'', Sleep 300,
                   Fetch ''https://convex.usekalpa.com/http/links-list'', Sleep 600,
                   Fetch ''https://convex.usekalpa.com/http/links-list'', Sleep 1200,
                   Fetch ''https://convex.usekalpa.com/http/links-list'',
                   connection_failed_toast 3]\<rparr>)"
  by (simp add: KalpaClient_getLinks_def linksQuery_offline)


lemma linksQuery_example_not_ok:
  assumes "\<not> ok resp"
  shows "linksQuery P (example_world (Some ''tok'') (\<lambda>n. Inr resp))
    = (Inl (Error (''Links query failed: '' @ body resp)),
       (example_world (Some ''tok'') (\<lambda>n. Inr resp))
         \<lparr>calls := 1, trace := [Fetch ''https://convex.usekalpa.com/http/links-list'']\<rparr>)"
  using linksQuery_not_ok [OF ensure_opaque_token [of P "\<lambda>n. Inr resp"] _ assms,
      unfolded fetch_example_response]
  by (simp add: CONVEX_URL_def)

lemma getLinks_unauthorized:
  "KalpaClient_getLinks P as_page options unauthorized_world =
     (Inl (Error ''Links query failed: Unauthorized''),
      unauthorized_world
        \<lparr>calls := 1, trace := [Fetch ''https://convex.usekalpa.com/http/links-list'']\<rparr>)"
  by (simp add: KalpaClient_getLinks_def unauthorized_world_def linksQuery_example_not_ok ok_def)

lemma getLinks_auth_outage:
  "KalpaClient_getLinks P as_page options auth_outage_world =
     (Inl (Error ''Links query failed: Authentication service unavailable''),
      auth_outage_world
        \<lparr>calls := 1, trace := [Fetch ''https://convex.usekalpa.com/http/links-list'']\<rparr>)"
  by (simp add: KalpaClient_getLinks_def auth_outage_world_def linksQuery_example_not_ok ok_def)

lemma mentions_examples:
  "mentions_Authentication (Error ''Authentication required'')"
  "mentions_Authentication (Error ''Links query failed: Authentication service unavailable'')"
  "\<not> mentions_Authentication (Error ''Links query failed: Unauthorized'')"
  "\<not> mentions_Authentication (Error ''aborted'')"
  "\<not> mentions_Authentication (NonError ''Authentication'')"
  by (simp_all flip: isAuthError_mentions)

lemma contains_ci_run: "contains_ci q s = str_includes (toLowerCase s) (toLowerCase q)"
  by (simp add: contains_ci_def str_includes_sublist)

lemma derived_keywords_spaced_link:
  "derived_keywords spaced_link = {''learn'', ''go'', ''example.com'', ''page''}"
  by (auto simp: derived_keywords_def spaced_link_def example_link_def words_of.simps isSpace_def
      without_www_def toLowerCase_def toLowerChar_def upper_letters_def lower_letters_def)

lemma extractKeywords_spaced_link:
  "extractKeywords spaced_link = ['''', ''learn'', ''go'', ''example.com'', ''page'']"
  by (simp add: extractKeywords_def spaced_link_def example_link_def dedup_def split_whitespace_def
      isSpace_def formatDomain_def toLowerCase_def toLowerChar_def upper_letters_def
      lower_letters_def)

lemma spaced_link_sel:
  "title spaced_link = '' Learn Go go''" "url spaced_link = ''https://example.com/a''"
  "summary_preview spaced_link = None"
  by (simp_all add: spaced_link_def example_link_def)


section \<open>The claims\<close>

subsection \<open>The retry loop\<close>

text \<open>
  C1. When every attempt of the transport throws, \<open>fetchWithRetry\<close> with retry budget \<open>r\<close>
  calls \<open>fetch\<close> exactly \<open>r + 1\<close> times, waits \<open>300 * 2 ^ i\<close> milliseconds after the failed
  attempt \<open>i\<close> for each \<open>i < r\<close> and not after the last one, shows the failure toast once,
  and throws the error captured at the last attempt (the thrown value itself when it is an
  \<open>Error\<close>, else an \<open>Error\<close> made from it). \<open>t i\<close> is what attempt \<open>i\<close> throws.
\<close>

theorem fetchWithRetry_all_attempts_fail:
  assumes "\<forall>i\<le>r. network w (calls w + i) = Inl (t i)"
  shows "fetchWithRetry u r w =
     (Inl (as_Error (t r)),
      w\<lparr>calls := calls w + (r + 1),
        trace := trace w @ concat (map (\<lambda>i. [Fetch u, Sleep (300 * 2 ^ i)]) [0..<r])
                 @ [Fetch u, connection_failed_toast r]\<rparr>)"
  using retry_loop_all_fail [of 0 r w "calls w" t u None] assms
  by (simp add: fetchWithRetry_def failed_attempts_def)

theorem fetchWithRetry_all_attempts_fail_witness:
  "fetchWithRetry ''https://usekalpa.com/api/links'' 3 offline_world =
     (Inl (Error ''aborted''),
      offline_world
        \<lparr>calls := 4,
         trace :=
           [Fetch ''https://usekalpa.com/api/links'', Sleep 300,
            Fetch ''https://usekalpa.com/api/links'', Sleep 600,
            Fetch ''https://usekalpa.com/api/links'', Sleep 1200,
            Fetch ''https://usekalpa.com/api/links'',
            ShowToast ''Connection Failed'' ''Could not reach Kalpa after 4 attempts''
              (Some ''Open Kalpa Web App'')]\<rparr>)"
proof -
  have "\<forall>i\<le>3. network offline_world (calls offline_world + i)
      = Inl (if i = 3 then NonError ''aborted'' else Error ''fetch failed'')"
    by (simp add: offline_world_def)
  from fetchWithRetry_all_attempts_fail [OF this, of "''https://usekalpa.com/api/links''"]
  show ?thesis
    by (simp add: offline_world_def connection_failed_toast_def show_nat.simps upt_rec)
qed

text \<open>
  C7. When an attempt of the transport returns a response, whatever its status,
  \<open>fetchWithRetry\<close> returns that response as it is and makes no further attempt. With the
  attempts counted from 0 as the loop counts them, a response at attempt \<open>k\<close> comes after
  exactly the \<open>k\<close> waits of the failed attempts before it: a response at the second attempt
  of a budget of four attempts comes after the one wait of 300 milliseconds.
\<close>

theorem fetchWithRetry_returns_first_response:
  assumes "k \<le> r" "\<forall>i<k. network w (calls w + i) = Inl (t i)" "network w (calls w + k) = Inr resp"
  shows "fetchWithRetry u r w =
     (Inr resp,
      w\<lparr>calls := calls w + (k + 1),
        trace := trace w @ concat (map (\<lambda>i. [Fetch u, Sleep (300 * 2 ^ i)]) [0..<k]) @ [Fetch u]\<rparr>)"
  using retry_loop_succeeds_at [of 0 k r w "calls w" t resp u None] assms
  by (simp add: fetchWithRetry_def failed_attempts_def)

theorem fetchWithRetry_returns_first_response_witness:
  "fetchWithRetry ''https://usekalpa.com/api/links'' 3 flaky_world =
     (Inr \<lparr>status = 503, body = ''busy''\<rparr>,
      flaky_world
        \<lparr>calls := 2,
         trace := [Fetch ''https://usekalpa.com/api/links'', Sleep 300,
                   Fetch ''https://usekalpa.com/api/links'']\<rparr>)"
proof -
  have a: "(1::nat) \<le> 3"
    by simp
  have b: "\<forall>i<1. network flaky_world (calls flaky_world + i) = Inl (Error ''fetch failed'')"
    by (simp add: flaky_world_def)
  have c: "network flaky_world (calls flaky_world + 1) = Inr \<lparr>status = 503, body = ''busy''\<rparr>"
    by (simp add: flaky_world_def)
  from fetchWithRetry_returns_first_response [OF a b c, of "''https://usekalpa.com/api/links''"]
  show ?thesis
    by (simp add: flaky_world_def upt_rec)
qed

subsection \<open>Responses that are not ok\<close>





subsection \<open>The token guard\<close>

text \<open>
  C5. When the claims decoded from a token have a numeric field \<open>exp\<close>, \<open>tokenIsExpired\<close>
  returns \<open>true\<close> exactly when \<open>exp\<close> is at most the current time in whole seconds,
  \<open>Math.floor(Date.now() / 1000)\<close>; when they have no numeric \<open>exp\<close>, and so when the
  claims cannot be decoded (\<open>parseJwtClaims\<close> returns \<open>null\<close>), it returns \<open>null\<close>.
\<close>

theorem tokenIsExpired_by_expiry_claim:
  "(property (parseJwtClaims P token) ''exp'' = Some (JNum exp) \<longrightarrow>
      tokenIsExpired P token date_now = Some (exp \<le> date_now div 1000))
   \<and> ((\<forall>n. property (parseJwtClaims P token) ''exp'' \<noteq> Some (JNum n)) \<longrightarrow>
      tokenIsExpired P token date_now = None)
   \<and> (parseJwtClaims P token = JNull \<longrightarrow> tokenIsExpired P token date_now = None)"
  by (auto simp: tokenIsExpired_def Let_def property_Some_truthy split: option.splits json.splits)

theorem tokenIsExpired_by_expiry_claim_witness:
  "tokenIsExpired example_platform example_jwt 1800000000000 = Some True
   \<and> tokenIsExpired example_platform example_jwt 1700000000999 = Some True
   \<and> tokenIsExpired example_platform example_jwt 1600000000000 = Some False
   \<and> tokenIsExpired example_platform ''not-a-jwt'' 1800000000000 = None"
  using tokenIsExpired_by_expiry_claim [of example_platform example_jwt 1700000000 1800000000000]
    tokenIsExpired_by_expiry_claim [of example_platform example_jwt 1700000000 1700000000999]
    tokenIsExpired_by_expiry_claim [of example_platform example_jwt 1700000000 1600000000000]
    tokenIsExpired_by_expiry_claim [of example_platform "''not-a-jwt''" 0 1800000000000]
  by (simp add: claims_example_jwt claims_not_a_jwt)

text \<open>
  C6. For a malformed token \<open>parseJwtClaims\<close> returns \<open>null\<close>, and when such a token is
  the configured one (the trimmed preference), \<open>ensureValidTokenOrToast\<close> returns it and
  shows nothing. \<open>ensureValidTokenOrToast\<close> returns \<open>null\<close> exactly when no token is
  configured or \<open>tokenIsExpired\<close> returns \<open>true\<close> for the configured one.
\<close>

theorem malformed_token_is_attempted:
  "(malformed P token \<longrightarrow> parseJwtClaims P token = JNull)
   \<and> (getApiToken (apiToken_pref w) = Some token \<and> malformed P token \<longrightarrow>
        ensureValidTokenOrToast P w = (Some token, w))
   \<and> (fst (ensureValidTokenOrToast P w) = None \<longleftrightarrow>
        getApiToken (apiToken_pref w) = None
        \<or> (\<exists>t. getApiToken (apiToken_pref w) = Some t \<and> tokenIsExpired P t (now_ms w) = Some True))"
  by (auto simp: malformed_claims ensureValidTokenOrToast_def tokenIsExpired_def Let_def
      split: option.splits)

theorem malformed_token_is_attempted_witness:
  "parseJwtClaims example_platform ''not-a-jwt'' = JNull
   \<and> ensureValidTokenOrToast example_platform (example_world (Some ''not-a-jwt'') (\<lambda>n. Inl (Error ''fetch failed'')))
       = (Some ''not-a-jwt'', example_world (Some ''not-a-jwt'') (\<lambda>n. Inl (Error ''fetch failed'')))
   \<and> ensureValidTokenOrToast example_platform (example_world (Some '' a.b '') (\<lambda>n. Inl (Error ''fetch failed'')))
       = (Some ''a.b'', example_world (Some '' a.b '') (\<lambda>n. Inl (Error ''fetch failed'')))
   \<and> fst (ensureValidTokenOrToast example_platform (example_world None (\<lambda>n. Inl (Error ''fetch failed'')))) = None
   \<and> fst (ensureValidTokenOrToast example_platform (example_world (Some example_jwt) (\<lambda>n. Inl (Error ''fetch failed'')))) = None"
  using malformed_token_is_attempted [of example_platform "''not-a-jwt''"
      "example_world (Some ''not-a-jwt'') (\<lambda>n. Inl (Error ''fetch failed''))"]
    malformed_token_is_attempted [of example_platform "''a.b''"
      "example_world (Some '' a.b '') (\<lambda>n. Inl (Error ''fetch failed''))"]
    malformed_token_is_attempted [of example_platform "''''"
      "example_world None (\<lambda>n. Inl (Error ''fetch failed''))"]
    malformed_token_is_attempted [of example_platform "''''"
      "example_world (Some example_jwt) (\<lambda>n. Inl (Error ''fetch failed''))"]
    tokenIsExpired_example
  by (simp add: getApiToken_examples malformed_examples getApiToken_example_jwt)


subsection \<open>The aggregation\<close>

text \<open>
  C2, amended. In \<open>useAllLinks\<close>, whichever of the three sub-fetches throws, the call ends
  there: the thrown value is written to the console, and the call returns the empty list
  exactly when the value is an \<open>Error\<close> whose message has the text \<open>Authentication\<close> in
  it, and throws the same value otherwise. When the token guard returns no token (none is
  configured, or the configured one has expired), \<open>linksQuery\<close> throws
  \<open>Error("Authentication required")\<close> and the call with the client returns the empty list.
  The sub-fetches run one after the other, so the second runs in the environment \<open>w1\<close>
  that the first leaves, and the third in \<open>w2\<close>; the environment after the call is the one
  the throwing sub-fetch leaves, with the console line added.
\<close>

theorem useAllLinks_downgrades_Authentication_messages:
  "(getLinks c (fetchOpts opts) w = (Inl e, w1) \<longrightarrow>
      useAllLinks_fetch c opts w
        = (if mentions_Authentication e then Inr [] else Inl e, emit (ConsoleError e) w1))
   \<and> (getLinks c (fetchOpts opts) w = (Inr r1, w1)
      \<and> getVideos c (fetchOpts opts) w1 = (Inl e, w2) \<longrightarrow>
      useAllLinks_fetch c opts w
        = (if mentions_Authentication e then Inr [] else Inl e, emit (ConsoleError e) w2))
   \<and> (getLinks c (fetchOpts opts) w = (Inr r1, w1)
      \<and> getVideos c (fetchOpts opts) w1 = (Inr r2, w2)
      \<and> getCodepenLinks c (effectiveNumItems opts) (universeId opts) w2 = (Inl e, w3) \<longrightarrow>
      useAllLinks_fetch c opts w
        = (if mentions_Authentication e then Inr [] else Inl e, emit (ConsoleError e) w3))
   \<and> (fst (ensureValidTokenOrToast P w) = None \<longrightarrow>
        fst (linksQuery P w) = Inl (Error ''Authentication required'')
        \<and> fst (useAllLinks_fetch (KalpaClient P as_page) opts w) = Inr [])"
  by (simp add: useAllLinks_fetch_links_raise useAllLinks_fetch_videos_raise
      useAllLinks_fetch_codepen_raise useAllLinks_catch_eq isAuthError_mentions
      linksQuery_no_token useAllLinks_no_token)

theorem useAllLinks_downgrades_Authentication_messages_witness:
  "useAllLinks_fetch (KalpaClient example_platform no_pages) example_options
       (example_world None (\<lambda>n. Inl (Error ''fetch failed'')))
     = (Inr [],
        (example_world None (\<lambda>n. Inl (Error ''fetch failed'')))
          \<lparr>trace := [ShowToast ''Missing API token''
                       ''Set your API token in the Kalpa Raycast extension preferences.'' None,
                     ConsoleError (Error ''Authentication required'')]\<rparr>)
   \<and> fst (useAllLinks_fetch (KalpaClient example_platform no_pages) example_options
         (example_world (Some example_jwt) (\<lambda>n. Inl (Error ''fetch failed'')))) = Inr []
   \<and> fst (useAllLinks_fetch (KalpaClient example_platform no_pages) example_options offline_world)
       = Inl (Error ''aborted'')
   \<and> fst (useAllLinks_fetch (KalpaClient example_platform no_pages) example_options
         unauthorized_world) = Inl (Error ''Links query failed: Unauthorized'')
   \<and> fst (useAllLinks_fetch (KalpaClient example_platform no_pages) example_options
         auth_outage_world) = Inr []
   \<and> fst (useAllLinks_fetch
         (stub_client (Inr (example_page [5, 3])) (Inl (Error ''Authentication required''))
            (Inr (example_page [2, 1])))
         example_options offline_world) = Inr []
   \<and> fst (useAllLinks_fetch
         (stub_client (Inr (example_page [5, 3])) (Inr (example_page [4]))
            (Inl (NonError ''Authentication'')))
         example_options offline_world) = Inl (NonError ''Authentication'')"
  using
    useAllLinks_downgrades_Authentication_messages
      [of "KalpaClient example_platform no_pages" example_options
          "example_world None (\<lambda>n. Inl (Error ''fetch failed''))"
          "Error ''Authentication required''", unfolded KalpaClient_sel getLinks_no_token]
    useAllLinks_downgrades_Authentication_messages
      [of "KalpaClient example_platform no_pages" example_options
          "example_world (Some example_jwt) (\<lambda>n. Inl (Error ''fetch failed''))"
          "Error ''Authentication required''", unfolded KalpaClient_sel getLinks_expired_token]
    useAllLinks_downgrades_Authentication_messages
      [of "KalpaClient example_platform no_pages" example_options offline_world
          "Error ''aborted''", unfolded KalpaClient_sel getLinks_offline]
    useAllLinks_downgrades_Authentication_messages
      [of "KalpaClient example_platform no_pages" example_options unauthorized_world
          "Error ''Links query failed: Unauthorized''",
          unfolded KalpaClient_sel getLinks_unauthorized]
    useAllLinks_downgrades_Authentication_messages
      [of "KalpaClient example_platform no_pages" example_options auth_outage_world
          "Error ''Links query failed: Authentication service unavailable''",
          unfolded KalpaClient_sel getLinks_auth_outage]
    useAllLinks_downgrades_Authentication_messages
      [of "stub_client (Inr (example_page [5, 3])) (Inl (Error ''Authentication required''))
            (Inr (example_page [2, 1]))"
          example_options offline_world "Error ''Authentication required''" offline_world
          "example_page [5, 3]" offline_world]
    useAllLinks_downgrades_Authentication_messages
      [of "stub_client (Inr (example_page [5, 3])) (Inr (example_page [4]))
            (Inl (NonError ''Authentication''))"
          example_options offline_world "NonError ''Authentication''"
          offline_world "example_page [5, 3]" offline_world "example_page [4]" offline_world]
  by (simp add: emit_def mentions_examples)

text \<open>
  C2 as stated fails, whichever errors it means. With a token that the guard accepts, a 401
  response with the body \<open>Unauthorized\<close> makes the first sub-fetch throw
  \<open>Links query failed: Unauthorized\<close>, and the call throws it: an authentication failure
  that is not turned into the empty list. A 500 response whose body has the word
  \<open>Authentication\<close> in it makes the first sub-fetch throw an error that is not the one of
  the token guard, and the call returns the empty list: an error of another kind that does
  not reach the caller.
\<close>

theorem useAllLinks_auth_errors_counterexample:
  "fst (ensureValidTokenOrToast example_platform unauthorized_world) = Some ''tok''
   \<and> fst (linksQuery example_platform unauthorized_world)
       = Inl (Error ''Links query failed: Unauthorized'')
   \<and> fst (useAllLinks_fetch (KalpaClient example_platform no_pages) example_options
         unauthorized_world) = Inl (Error ''Links query failed: Unauthorized'')
   \<and> fst (ensureValidTokenOrToast example_platform auth_outage_world) = Some ''tok''
   \<and> fst (linksQuery example_platform auth_outage_world)
       = Inl (Error ''Links query failed: Authentication service unavailable'')
   \<and> fst (useAllLinks_fetch (KalpaClient example_platform no_pages) example_options
         auth_outage_world) = Inr []"
proof -
  have "fst (useAllLinks_fetch (KalpaClient example_platform no_pages) example_options
         unauthorized_world) = Inl (Error ''Links query failed: Unauthorized'')"
    by (simp add: useAllLinks_fetch_links_raise [OF getLinks_unauthorized [folded KalpaClient_sel(1)]]
        useAllLinks_catch_eq)
  moreover have "fst (useAllLinks_fetch (KalpaClient example_platform no_pages) example_options
         auth_outage_world) = Inr []"
    by (simp add: useAllLinks_fetch_links_raise [OF getLinks_auth_outage [folded KalpaClient_sel(1)]]
        useAllLinks_catch_eq)
  ultimately show ?thesis
    by (simp add: unauthorized_world_def auth_outage_world_def ensure_opaque_token
        linksQuery_example_not_ok ok_def)
qed

text \<open>
  C4. When the three sub-fetches return, \<open>useAllLinks\<close> returns the items of the three
  pages (generic, video, snippet, in this order) sorted by descending creation time: the
  result has the same items, no item comes before one with a later creation time, and the
  items of any one creation time stand in the order they have in the concatenation. Pages
  with the times \<open>[5, 3]\<close>, \<open>[4]\<close> and \<open>[2, 1]\<close> give the times \<open>[5, 4, 3, 2, 1]\<close>.
\<close>

theorem useAllLinks_merges_by_creation_time:
  assumes "getLinks c (fetchOpts opts) w = (Inr r1, w1)"
    and "getVideos c (fetchOpts opts) w1 = (Inr r2, w2)"
    and "getCodepenLinks c (effectiveNumItems opts) (universeId opts) w2 = (Inr r3, w3)"
  shows "\<exists>out. useAllLinks_fetch c opts w = (Inr out, w3)
    \<and> mset out = mset (page r1 @ page r2 @ page r3)
    \<and> sorted_wrt (\<lambda>a b. creationTime b \<le> creationTime a) out
    \<and> (\<forall>t. filter (\<lambda>a. creationTime a = t) out
            = filter (\<lambda>a. creationTime a = t) (page r1 @ page r2 @ page r3))
    \<and> (map creationTime (page r1) = [5, 3] \<and> map creationTime (page r2) = [4]
        \<and> map creationTime (page r3) = [2, 1] \<longrightarrow> map creationTime out = [5, 4, 3, 2, 1])"
proof (intro exI conjI allI)
  show "useAllLinks_fetch c opts w = (Inr (array_sort time_cmp (page r1 @ page r2 @ page r3)), w3)"
    by (rule useAllLinks_fetch_all_return [OF assms])
  show "mset (array_sort time_cmp (page r1 @ page r2 @ page r3)) = mset (page r1 @ page r2 @ page r3)"
    by (rule mset_array_sort)
  show "sorted_wrt (\<lambda>a b. creationTime b \<le> creationTime a)
     (array_sort time_cmp (page r1 @ page r2 @ page r3))"
    by (rule descending_array_sort)
  show "filter (\<lambda>a. creationTime a = t) (array_sort time_cmp (page r1 @ page r2 @ page r3))
      = filter (\<lambda>a. creationTime a = t) (page r1 @ page r2 @ page r3)" for t
    by (rule stable_array_sort)
  show "map creationTime (page r1) = [5, 3] \<and> map creationTime (page r2) = [4]
        \<and> map creationTime (page r3) = [2, 1] \<longrightarrow>
     map creationTime (array_sort time_cmp (page r1 @ page r2 @ page r3)) = [5, 4, 3, 2, 1]"
    by (simp add: times_array_sort)
qed

theorem useAllLinks_merges_by_creation_time_witness:
  "\<exists>out. useAllLinks_fetch
            (stub_client (Inr (example_page [5, 3])) (Inr (example_page [4]))
               (Inr (example_page [2, 1])))
            example_options offline_world = (Inr out, offline_world)
     \<and> map creationTime out = [5, 4, 3, 2, 1]"
proof -
  have "map creationTime (page (example_page ts)) = ts" for ts
    by (simp add: example_page_def example_link_def comp_def)
  with useAllLinks_merges_by_creation_time
      [of "stub_client (Inr (example_page [5, 3])) (Inr (example_page [4]))
            (Inr (example_page [2, 1]))"
          example_options offline_world "example_page [5, 3]" offline_world
          "example_page [4]" offline_world "example_page [2, 1]" offline_world]
  show ?thesis
    by auto
qed

subsection \<open>Ranking and matching\<close>

text \<open>
  C3. For a query that is not empty, the comparator of \<open>sortByRelevance\<close> puts \<open>a\<close> before
  \<open>b\<close> (is negative) exactly when \<open>a\<close> ranks before \<open>b\<close> in the strict precedence of the
  specification, and \<open>b\<close> before \<open>a\<close> (is positive) exactly when \<open>b\<close> ranks before \<open>a\<close>; in
  the list that \<open>sortByRelevance\<close> returns no item stands after one that it ranks before.
  Items titled \<open>Go\<close>, \<open>Going\<close> and \<open>Foo Go Bar\<close> come out in this order for the query
  \<open>go\<close>, from this order and from the reverse one, whatever their other fields.
\<close>

theorem sortByRelevance_strict_precedence:
  assumes "q \<noteq> []"
  shows "(\<forall>a b. (relevance_cmp (toLowerCase q) a b < 0) = ranks_before q a b)
    \<and> (\<forall>a b. (0 < relevance_cmp (toLowerCase q) a b) = ranks_before q b a)
    \<and> sorted_wrt (\<lambda>a b. \<not> ranks_before q b a) (sortByRelevance links q)
    \<and> map title (sortByRelevance
            [x\<lparr>title := ''Go''\<rparr>, y\<lparr>title := ''Going''\<rparr>, z\<lparr>title := ''Foo Go Bar''\<rparr>] ''go'')
          = [''Go'', ''Going'', ''Foo Go Bar'']
    \<and> map title (sortByRelevance
            [z\<lparr>title := ''Foo Go Bar''\<rparr>, y\<lparr>title := ''Going''\<rparr>, x\<lparr>title := ''Go''\<rparr>] ''go'')
          = [''Go'', ''Going'', ''Foo Go Bar'']"
  using sortByRelevance_ranked [OF assms, of links]
  by (simp add: ranks_before_key relevance_cmp_negative relevance_cmp_positive
      sortByRelevance_go_example)

theorem sortByRelevance_strict_precedence_witness:
  "sortByRelevance
     [example_link ''Foo Go Bar'' 9, example_link ''Going'' 5, example_link ''Go'' 1,
      example_link ''Gopher'' 7, example_link ''GO'' 2, example_link ''Rust'' 100] ''go''
   = [example_link ''GO'' 2, example_link ''Go'' 1, example_link ''Gopher'' 7,
      example_link ''Going'' 5, example_link ''Foo Go Bar'' 9, example_link ''Rust'' 100]
   \<and> sorted_wrt (\<lambda>a b. \<not> ranks_before ''go'' b a)
       [example_link ''GO'' 2, example_link ''Go'' 1, example_link ''Gopher'' 7,
        example_link ''Going'' 5, example_link ''Foo Go Bar'' 9, example_link ''Rust'' 100]"
proof -
  have q: "''go'' \<noteq> []"
    by simp
  from sortByRelevance_strict_precedence [OF q, of
      "[example_link ''Foo Go Bar'' 9, example_link ''Going'' 5, example_link ''Go'' 1,
        example_link ''Gopher'' 7, example_link ''GO'' 2, example_link ''Rust'' 100]"]
  show ?thesis
    unfolding sortByRelevance_example_run by blast
qed

text \<open>
  C8. \<open>matchesSearch\<close> accepts every item for the empty query. For a query that is not
  empty it accepts an item exactly when the query occurs, without regard to case, in one
  of the item's derived keywords, in its title, in its URL, or in its summary. The list of
  \<open>extractKeywords\<close> has no duplicates and holds the derived keywords in lower case, and
  with them the empty string when the title is empty or begins or ends with white space
  (\<open>split\<close> leaves an empty piece there; no query that is not empty occurs in it).
\<close>

theorem matchesSearch_characterised:
  "matchesSearch link [] \<and>
   (q \<noteq> [] \<longrightarrow>
      matchesSearch link q =
        ((\<exists>k \<in> derived_keywords link. contains_ci q k)
         \<or> contains_ci q (title link)
         \<or> contains_ci q (url link)
         \<or> (\<exists>s. summary_preview link = Some s \<and> contains_ci q s)))
   \<and> distinct (extractKeywords link)
   \<and> set (extractKeywords link) =
       toLowerCase ` derived_keywords link
       \<union> (if title link = [] \<or> isSpace (hd (title link)) \<or> isSpace (last (title link))
          then {[]} else {})"
proof (intro conjI impI)
  show "matchesSearch link []"
    by (simp add: matchesSearch_def)
  show "distinct (extractKeywords link)"
    by (rule distinct_extractKeywords)
  show "set (extractKeywords link) =
       toLowerCase ` derived_keywords link
       \<union> (if title link = [] \<or> isSpace (hd (title link)) \<or> isSpace (last (title link))
          then {[]} else {})"
    by (rule set_extractKeywords)
  assume q: "q \<noteq> []"
  have "(\<exists>k \<in> set (extractKeywords link). str_includes k (toLowerCase q))
      = (\<exists>k \<in> derived_keywords link. contains_ci q k)"
  proof -
    have "(\<exists>k \<in> set (extractKeywords link). str_includes k (toLowerCase q))
        = (\<exists>k \<in> set (extractKeywords link). contains_ci q k)"
    proof -
      have "toLowerCase k = k" if "k \<in> set (extractKeywords link)" for k
      proof -
        have "k = [] \<or> k \<in> toLowerCase ` derived_keywords link"
          using that by (auto simp: set_extractKeywords split: if_splits)
        then show ?thesis
          using toLowerCase_fixed [OF toLowerCase_no_upper] by (auto simp: toLowerCase_def)
      qed
      then show ?thesis
        by (auto simp: contains_ci_def str_includes_sublist)
    qed
    also have "\<dots> = (\<exists>k \<in> toLowerCase ` derived_keywords link. contains_ci q k)"
      using contains_ci_empty [OF q] by (auto simp: set_extractKeywords split: if_splits)
    also have "\<dots> = (\<exists>k \<in> derived_keywords link. contains_ci q k)"
      by (simp add: contains_ci_lower)
    finally show ?thesis .
  qed
  then show "matchesSearch link q =
        ((\<exists>k \<in> derived_keywords link. contains_ci q k)
         \<or> contains_ci q (title link)
         \<or> contains_ci q (url link)
         \<or> (\<exists>s. summary_preview link = Some s \<and> contains_ci q s))"
    using q by (auto simp: matchesSearch_def Let_def list_ex_iff contains_ci_def
        str_includes_sublist split: option.splits)
qed

theorem matchesSearch_characterised_witness:
  "matchesSearch spaced_link []
   \<and> matchesSearch spaced_link ''EXAMPLE.com''
   \<and> matchesSearch spaced_link ''rn g''
   \<and> \<not> matchesSearch spaced_link ''www''
   \<and> \<not> matchesSearch spaced_link ''rust''
   \<and> set (extractKeywords spaced_link) = {'''', ''learn'', ''go'', ''example.com'', ''page''}"
proof -
  have low: "toLowerCase ` {''learn'', ''go'', ''example.com'', ''page''}
      = {''learn'', ''go'', ''example.com'', ''page''}"
    by (simp add: toLowerCase_def toLowerChar_def upper_letters_def lower_letters_def)
  from matchesSearch_characterised [of spaced_link "''EXAMPLE.com''"] matchesSearch_characterised [of spaced_link "''rn g''"]
    matchesSearch_characterised [of spaced_link "''www''"] matchesSearch_characterised [of spaced_link "''rust''"]
  show ?thesis
    unfolding derived_keywords_spaced_link spaced_link_sel low
    by (simp add: contains_ci_run isSpace_def toLowerCase_def toLowerChar_def upper_letters_def
        lower_letters_def insert_commute)
qed

text \<open>
  C10. \<open>sortByRelevance\<close>, for any query, returns a reference to a new array: the store
  grows by that one array, every array that was there, the argument among them, is as
  before, and the new array holds the items of the argument, each as often as there, in
  the order that \<open>sortByRelevance\<close> computes.
\<close>

theorem sortByRelevance_sorts_a_copy:
  assumes "links < length h"
  shows "case sortByRelevance_ref links q h of
           (r, h') \<Rightarrow>
             r = length h \<and> length h' = Suc (length h) \<and> take (length h) h' = h
             \<and> h' ! r = sortByRelevance (h ! links) q
             \<and> mset (h' ! r) = mset (h ! links)"
  using assms
  by (simp add: sortByRelevance_ref_def sortByRelevance_def spread_copy_def sort_in_place_def
      Let_def mset_array_sort nth_append)

theorem sortByRelevance_sorts_a_copy_witness:
  "sortByRelevance_ref 0 ''go''
      [[example_link ''Foo Go Bar'' 9, example_link ''Going'' 5, example_link ''Go'' 1]]
     = (1, [[example_link ''Foo Go Bar'' 9, example_link ''Going'' 5, example_link ''Go'' 1],
            [example_link ''Go'' 1, example_link ''Going'' 5, example_link ''Foo Go Bar'' 9]])
   \<and> sortByRelevance_ref 0 [] [[example_link ''a'' 1, example_link ''b'' 3, example_link ''c'' 2]]
     = (1, [[example_link ''a'' 1, example_link ''b'' 3, example_link ''c'' 2],
            [example_link ''b'' 3, example_link ''c'' 2, example_link ''a'' 1]])"
proof -
  have a: "(0::nat) < length [[example_link ''Foo Go Bar'' 9, example_link ''Going'' 5, example_link ''Go'' 1]]"
    by simp
  have b: "(0::nat) < length [[example_link ''a'' 1, example_link ''b'' 3, example_link ''c'' 2]]"
    by simp
  have two: "h' = [x, y]" if "length h' = Suc (Suc 0)" "take (Suc 0) h' = [x]" "h' ! Suc 0 = y"
    for h' :: "KalpaLink store" and x y
    using that by (cases h'; cases "tl h'") auto
  from sortByRelevance_sorts_a_copy [OF a, of "''go''"] sortByRelevance_sorts_a_copy [OF b, of "[]"]
  show ?thesis
    by (auto simp: sortByRelevance_copy_examples split: prod.splits intro!: two)
qed

end
